theory Spec2Isabelle
  imports Complex_Main "HOL-Library.Log_Nat"
begin

section \<open>JavaScript values\<close>

subsection \<open>Numbers\<close>

text \<open>
  A JavaScript number is an IEEE-754 binary64 value. A finite one is modelled by the
  rational it denotes, \<open>Fin q\<close>; the two infinities and NaN are separate values.
  The two zeros are one value: the program never divides, and \<open>-0 === 0\<close>, so their
  difference cannot be observed. Arithmetic rounds the exact result to the nearest
  representable value, ties to even (\<open>js_round\<close>): 53 significant bits, exponents from
  \<open>-1022\<close> to \<open>1023\<close>, subnormals below, infinity from \<open>2^1024\<close> on.
\<close>

datatype jsnum = Fin rat | PInf | NInf | NaN

definition pow2 :: "int \<Rightarrow> rat" where
  "pow2 e = (if 0 \<le> e then 2 ^ nat e else 1 / 2 ^ nat (- e))"

text \<open>\<open>ilog2 x\<close> is the exponent \<open>e\<close> with \<open>2^e \<le> x < 2^(e+1)\<close>, for \<open>x > 0\<close>.\<close>

definition ilog2 :: "rat \<Rightarrow> int" where
  "ilog2 x = (case quotient_of x of (p, q) \<Rightarrow>
     (let d = bitlen p - bitlen q in if pow2 d \<le> x then d else d - 1))"

text \<open>Rounding to the nearest integer, ties to the even one.\<close>

definition rne :: "rat \<Rightarrow> int" where
  "rne x = (let f = \<lfloor>x\<rfloor>; d = x - of_int f in
     if d < 1 / 2 then f else if 1 / 2 < d then f + 1 else if even f then f else f + 1)"

text \<open>The exponent of the unit in the last place of the binade of \<open>x > 0\<close>.\<close>

definition ulp_exp :: "rat \<Rightarrow> int" where
  "ulp_exp x = max (ilog2 x) (- 1022) - 52"

definition round_pos :: "rat \<Rightarrow> rat" where
  "round_pos x = of_int (rne (x / pow2 (ulp_exp x))) * pow2 (ulp_exp x)"

definition js_round :: "rat \<Rightarrow> jsnum" where
  "js_round x =
     (if x = 0 then Fin 0
      else if 0 < x then (if pow2 1024 \<le> round_pos x then PInf else Fin (round_pos x))
      else (if pow2 1024 \<le> round_pos (- x) then NInf else Fin (- round_pos (- x))))"

fun js_add :: "jsnum \<Rightarrow> jsnum \<Rightarrow> jsnum" where
  "js_add NaN _ = NaN"
| "js_add _ NaN = NaN"
| "js_add PInf NInf = NaN"
| "js_add NInf PInf = NaN"
| "js_add PInf _ = PInf"
| "js_add _ PInf = PInf"
| "js_add NInf _ = NInf"
| "js_add _ NInf = NInf"
| "js_add (Fin x) (Fin y) = js_round (x + y)"

fun js_mul :: "jsnum \<Rightarrow> jsnum \<Rightarrow> jsnum" where
  "js_mul NaN _ = NaN"
| "js_mul _ NaN = NaN"
| "js_mul (Fin x) (Fin y) = js_round (x * y)"
| "js_mul (Fin x) PInf = (if x = 0 then NaN else if 0 < x then PInf else NInf)"
| "js_mul (Fin x) NInf = (if x = 0 then NaN else if 0 < x then NInf else PInf)"
| "js_mul PInf (Fin y) = (if y = 0 then NaN else if 0 < y then PInf else NInf)"
| "js_mul NInf (Fin y) = (if y = 0 then NaN else if 0 < y then NInf else PInf)"
| "js_mul PInf PInf = PInf"
| "js_mul PInf NInf = NInf"
| "js_mul NInf PInf = NInf"
| "js_mul NInf NInf = PInf"

text \<open>The comparisons \<open><\<close> and \<open><=\<close>: false as soon as one side is NaN.\<close>

fun js_lt :: "jsnum \<Rightarrow> jsnum \<Rightarrow> bool" where
  "js_lt NaN _ = False"
| "js_lt _ NaN = False"
| "js_lt (Fin x) (Fin y) = (x < y)"
| "js_lt _ NInf = False"
| "js_lt PInf _ = False"
| "js_lt NInf _ = True"
| "js_lt _ PInf = True"

fun js_le :: "jsnum \<Rightarrow> jsnum \<Rightarrow> bool" where
  "js_le NaN _ = False"
| "js_le _ NaN = False"
| "js_le (Fin x) (Fin y) = (x \<le> y)"
| "js_le NInf _ = True"
| "js_le _ PInf = True"
| "js_le _ NInf = False"
| "js_le PInf _ = False"

text \<open>Truthiness of a number: \<open>0\<close> and NaN are falsy.\<close>

definition num_truthy :: "jsnum \<Rightarrow> bool" where
  "num_truthy n = (n \<noteq> NaN \<and> n \<noteq> Fin 0)"

text \<open>A value is a number of the language when it is its own rounding.\<close>

definition is_double :: "jsnum \<Rightarrow> bool" where
  "is_double n = (case n of Fin q \<Rightarrow> js_round q = Fin q | _ \<Rightarrow> True)"

subsection \<open>JSON values and strings\<close>

datatype jsval =
    JUndefined
  | JNull
  | JBool bool
  | JNum jsnum
  | JStr string
  | JArr "jsval list"
  | JObj "(string \<times> jsval) list"

fun js_typeof :: "jsval \<Rightarrow> string" where
  "js_typeof JUndefined = ''undefined''"
| "js_typeof JNull = ''object''"
| "js_typeof (JBool _) = ''boolean''"
| "js_typeof (JNum _) = ''number''"
| "js_typeof (JStr _) = ''string''"
| "js_typeof (JArr _) = ''object''"
| "js_typeof (JObj _) = ''object''"

fun isArray :: "jsval \<Rightarrow> bool" where
  "isArray (JArr _) = True"
| "isArray _ = False"

text \<open>
  A field of a request that the handlers only test for truthiness is an optional string:
  \<open>None\<close> when the field is absent; the empty string is falsy too.
\<close>

fun str_truthy :: "string option \<Rightarrow> bool" where
  "str_truthy None = False"
| "str_truthy (Some s) = (s \<noteq> [])"

text \<open>
  Truthiness of a JSON value: \<open>undefined\<close>, \<open>null\<close>, \<open>false\<close>, \<open>0\<close>, \<open>NaN\<close> and the
  empty string are falsy, every array and every object is truthy.
\<close>

fun js_truthy :: "jsval \<Rightarrow> bool" where
  "js_truthy JUndefined = False"
| "js_truthy JNull = False"
| "js_truthy (JBool b) = b"
| "js_truthy (JNum n) = num_truthy n"
| "js_truthy (JStr s) = (s \<noteq> [])"
| "js_truthy (JArr _) = True"
| "js_truthy (JObj _) = True"

text \<open>A destructuring default replaces \<open>undefined\<close>, and nothing else.\<close>

definition jdflt :: "jsval \<Rightarrow> jsval \<Rightarrow> jsval" where
  "jdflt d v = (if v = JUndefined then d else v)"

text \<open>
  A string of the language is a sequence of UTF-16 code units. A \<^typ>\<open>char\<close> is a code
  unit below 256, so that the strings of the model are the strings of the characters
  \<open>U+0000\<close> to \<open>U+00FF\<close> (Basic Latin and Latin-1 Supplement): \<open>CHR 0xC9\<close> is the
  capital E with acute accent and \<open>CHR 0xE9\<close> the small one. The strings with a code unit
  from 256 on are not values of the model.

  On these strings \<open>String.prototype.toLowerCase\<close> works code unit by code unit. The
  capital letters are \<open>U+0041\<close> to \<open>U+005A\<close> and \<open>U+00C0\<close> to \<open>U+00DE\<close> without the
  multiplication sign \<open>U+00D7\<close>; the small form of each is 32 above it. Every other code
  unit below 256 is its own lower case.
\<close>

definition lower_char :: "char \<Rightarrow> char" where
  "lower_char c =
     (let n = (of_char c :: nat)
      in if (65 \<le> n \<and> n \<le> 90) \<or> (192 \<le> n \<and> n \<le> 222 \<and> n \<noteq> 215) then char_of (n + 32) else c)"

definition toLowerCase :: "string \<Rightarrow> string" where
  "toLowerCase s = map lower_char s"

fun starts_with :: "string \<Rightarrow> string \<Rightarrow> bool" where
  "starts_with s [] = True"
| "starts_with [] (d # q) = False"
| "starts_with (c # s) (d # q) = (c = d \<and> starts_with s q)"

text \<open>\<open>s.includes(q)\<close>: \<open>q\<close> occurs in \<open>s\<close> as a contiguous run.\<close>

fun js_includes :: "string \<Rightarrow> string \<Rightarrow> bool" where
  "js_includes [] q = (q = [])"
| "js_includes (c # s) q = (starts_with (c # s) q \<or> js_includes s q)"

text \<open>\<open>Array.prototype.find\<close> is \<^const>\<open>find\<close>; an update in place of the object it returns
  is an update of the first element that satisfies the test.\<close>

fun update_first :: "('a \<Rightarrow> bool) \<Rightarrow> ('a \<Rightarrow> 'a) \<Rightarrow> 'a list \<Rightarrow> 'a list" where
  "update_first P f [] = []"
| "update_first P f (x # xs) = (if P x then f x # xs else x # update_first P f xs)"

text \<open>\<open>findIndex\<close> followed by \<open>splice(index, 1)\<close>: the first match is removed.\<close>

fun remove_first :: "('a \<Rightarrow> bool) \<Rightarrow> 'a list \<Rightarrow> 'a list" where
  "remove_first P [] = []"
| "remove_first P (x # xs) = (if P x then xs else x # remove_first P xs)"

section \<open>The in-memory data model (models.js)\<close>

text \<open>
  One record per kind of object, with the fields of the object literals of the source.
  Identifiers (\<open>uuidv4()\<close>), timestamps (\<open>new Date()\<close>) and password hashes
  (\<open>bcrypt.hash\<close>) come from outside the program: every creating call receives them in
  an \<open>env\<close>. The types of the fields are those of the defaults of the source
  (\<open>type = 'text'\<close>, \<open>price = 0\<close>, \<open>subscriberOnly = false\<close>,
  \<open>commission = 0.2\<close>, \<open>socialLinks: {}\<close>, \<open>subscriptionPlans: []\<close>).
  The content and the tags of a post are the JSON values of the request, whatever their
  type: the handler stores them as they come, and the search calls methods on them.
\<close>

record env =
  new_id :: string
  now :: nat
  pw_hash :: string

record profile =
  bio :: string
  profilePicture :: string
  banner :: string
  socialLinks :: jsval
  subscriptionPlans :: "jsval list"

record user =
  u_id :: string
  u_username :: string
  u_email :: string
  u_passwordHash :: string
  u_role :: string
  u_createdAt :: nat
  u_profile :: profile

record post =
  p_id :: string
  p_creatorId :: string
  p_content :: jsval
  p_type :: string
  p_price :: jsnum
  p_subscriberOnly :: bool
  p_tags :: jsval
  p_createdAt :: nat
  p_likes :: jsnum
  p_views :: jsnum

record subscription =
  s_id :: string
  s_subscriberId :: string
  s_creatorId :: string
  s_plan :: string
  s_status :: string
  s_createdAt :: nat

record storeItem =
  i_id :: string
  i_creatorId :: string
  i_name :: string
  i_description :: string
  i_price :: jsnum
  i_createdAt :: nat

record order =
  o_id :: string
  o_itemId :: string
  o_buyerId :: string
  o_status :: string
  o_createdAt :: nat

record referral =
  r_id :: string
  r_creatorId :: string
  r_affiliateId :: string
  r_code :: string
  r_commission :: jsnum
  r_signups :: jsnum
  r_earnings :: jsnum
  r_createdAt :: nat

record message =
  m_id :: string
  m_senderId :: string
  m_recipientId :: string
  m_content :: string
  m_createdAt :: nat

record tip =
  t_id :: string
  t_senderId :: string
  t_recipientId :: string
  t_amount :: jsnum
  t_createdAt :: nat

text \<open>The eight collections of the module.\<close>

record db =
  users :: "user list"
  posts :: "post list"
  subscriptions :: "subscription list"
  storeItems :: "storeItem list"
  orders :: "order list"
  referrals :: "referral list"
  messages :: "message list"
  tips :: "tip list"

definition empty_db :: db where
  "empty_db = \<lparr>users = [], posts = [], subscriptions = [], storeItems = [], orders = [],
     referrals = [], messages = [], tips = []\<rparr>"

subsection \<open>Users\<close>

definition createUser ::
  "db \<Rightarrow> env \<Rightarrow> string \<Rightarrow> string \<Rightarrow> string \<Rightarrow> (string \<times> string \<times> string) \<times> db" where
  "createUser st e username email role =
     (let user = \<lparr>u_id = new_id e, u_username = username, u_email = email,
                  u_passwordHash = pw_hash e, u_role = role, u_createdAt = now e,
                  u_profile = \<lparr>bio = [], profilePicture = [], banner = [],
                               socialLinks = JObj [], subscriptionPlans = []\<rparr>\<rparr>
      in ((u_id user, u_username user, u_role user), st\<lparr>users := users st @ [user]\<rparr>))"

definition getUserById :: "db \<Rightarrow> string \<Rightarrow> user option" where
  "getUserById st uid = find (\<lambda>u. u_id u = uid) (users st)"

definition getUserByUsername :: "db \<Rightarrow> string \<Rightarrow> user option" where
  "getUserByUsername st username = find (\<lambda>u. u_username u = username) (users st)"

subsection \<open>Posts\<close>

definition createPost ::
  "db \<Rightarrow> env \<Rightarrow> string \<Rightarrow> jsval \<Rightarrow> string \<Rightarrow> jsnum \<Rightarrow> bool \<Rightarrow> jsval \<Rightarrow> post \<times> db" where
  "createPost st e creatorId content type price subscriberOnly tags =
     (let post = \<lparr>p_id = new_id e, p_creatorId = creatorId, p_content = content,
                  p_type = type, p_price = price, p_subscriberOnly = subscriberOnly,
                  p_tags = jdflt (JArr []) tags, p_createdAt = now e, p_likes = Fin 0,
                  p_views = Fin 0\<rparr>
      in (post, st\<lparr>posts := posts st @ [post]\<rparr>))"

text \<open>
  The requester \<open>subscriberId\<close> is \<open>null\<close> (\<open>None\<close>) or a string; \<open>!subscriberId\<close> holds
  for \<open>null\<close> and for the empty string.
\<close>

definition listPosts :: "db \<Rightarrow> string \<Rightarrow> string option \<Rightarrow> post list" where
  "listPosts st creatorId subscriberId =
     filter (\<lambda>p.
       if p_creatorId p \<noteq> creatorId then False
       else if \<not> p_subscriberOnly p then True
       else if \<not> str_truthy subscriberId then False
       else list_ex (\<lambda>s. s_creatorId s = creatorId \<and> Some (s_subscriberId s) = subscriberId
                          \<and> s_status s = ''active'') (subscriptions st))
     (posts st)"

definition deletePostById :: "db \<Rightarrow> string \<Rightarrow> bool \<times> db" where
  "deletePostById st postId =
     (if list_ex (\<lambda>p. p_id p = postId) (posts st)
      then (True, st\<lparr>posts := remove_first (\<lambda>p. p_id p = postId) (posts st)\<rparr>)
      else (False, st))"

subsection \<open>Subscriptions\<close>

definition subscribe :: "db \<Rightarrow> env \<Rightarrow> string \<Rightarrow> string \<Rightarrow> string \<Rightarrow> subscription \<times> db" where
  "subscribe st e subscriberId creatorId plan =
     (let sub = \<lparr>s_id = new_id e, s_subscriberId = subscriberId, s_creatorId = creatorId,
                 s_plan = plan, s_status = ''active'', s_createdAt = now e\<rparr>
      in (sub, st\<lparr>subscriptions := subscriptions st @ [sub]\<rparr>))"

definition listSubscriptions :: "db \<Rightarrow> string \<Rightarrow> subscription list" where
  "listSubscriptions st subscriberId = filter (\<lambda>s. s_subscriberId s = subscriberId) (subscriptions st)"

subsection \<open>Store and orders\<close>

definition createStoreItem ::
  "db \<Rightarrow> env \<Rightarrow> string \<Rightarrow> string \<Rightarrow> string \<Rightarrow> jsnum \<Rightarrow> storeItem \<times> db" where
  "createStoreItem st e creatorId name description price =
     (let item = \<lparr>i_id = new_id e, i_creatorId = creatorId, i_name = name,
                  i_description = description, i_price = price, i_createdAt = now e\<rparr>
      in (item, st\<lparr>storeItems := storeItems st @ [item]\<rparr>))"

definition listStoreItems :: "db \<Rightarrow> string \<Rightarrow> storeItem list" where
  "listStoreItems st creatorId = filter (\<lambda>item. i_creatorId item = creatorId) (storeItems st)"

definition findStoreItemById :: "db \<Rightarrow> string \<Rightarrow> storeItem option" where
  "findStoreItemById st iid = find (\<lambda>item. i_id item = iid) (storeItems st)"

definition createOrder :: "db \<Rightarrow> env \<Rightarrow> string \<Rightarrow> string \<Rightarrow> order \<times> db" where
  "createOrder st e itemId buyerId =
     (let order = \<lparr>o_id = new_id e, o_itemId = itemId, o_buyerId = buyerId,
                   o_status = ''pending'', o_createdAt = now e\<rparr>
      in (order, st\<lparr>orders := orders st @ [order]\<rparr>))"

definition listOrdersByBuyer :: "db \<Rightarrow> string \<Rightarrow> order list" where
  "listOrdersByBuyer st buyerId = filter (\<lambda>ord. o_buyerId ord = buyerId) (orders st)"

subsection \<open>Referrals\<close>

definition createReferral ::
  "db \<Rightarrow> env \<Rightarrow> string \<Rightarrow> string \<Rightarrow> string \<Rightarrow> jsnum \<Rightarrow> referral \<times> db" where
  "createReferral st e creatorId affiliateId code commission =
     (let ref = \<lparr>r_id = new_id e, r_creatorId = creatorId, r_affiliateId = affiliateId,
                 r_code = code, r_commission = commission, r_signups = Fin 0,
                 r_earnings = Fin 0, r_createdAt = now e\<rparr>
      in (ref, st\<lparr>referrals := referrals st @ [ref]\<rparr>))"

definition getReferralByCode :: "db \<Rightarrow> string \<Rightarrow> referral option" where
  "getReferralByCode st code = find (\<lambda>r. r_code r = code) (referrals st)"

text \<open>
  Both functions return what \<open>find\<close> returned: the object, updated in place, or
  \<open>undefined\<close> (\<open>None\<close>), and then nothing is written.
\<close>

definition recordReferralSignup :: "db \<Rightarrow> string \<Rightarrow> referral option \<times> db" where
  "recordReferralSignup st code =
     (case find (\<lambda>r. r_code r = code) (referrals st) of
        None \<Rightarrow> (None, st)
      | Some ref \<Rightarrow>
          (let ref' = ref\<lparr>r_signups := js_add (r_signups ref) (Fin 1)\<rparr>
           in (Some ref',
               st\<lparr>referrals := update_first (\<lambda>r. r_code r = code) (\<lambda>_. ref') (referrals st)\<rparr>)))"

definition addReferralEarning :: "db \<Rightarrow> string \<Rightarrow> jsnum \<Rightarrow> referral option \<times> db" where
  "addReferralEarning st code amount =
     (case find (\<lambda>r. r_code r = code) (referrals st) of
        None \<Rightarrow> (None, st)
      | Some ref \<Rightarrow>
          (let ref' = ref\<lparr>r_earnings := js_add (r_earnings ref) (js_mul amount (r_commission ref))\<rparr>
           in (Some ref',
               st\<lparr>referrals := update_first (\<lambda>r. r_code r = code) (\<lambda>_. ref') (referrals st)\<rparr>)))"

subsection \<open>Messages\<close>

definition sendMessage :: "db \<Rightarrow> env \<Rightarrow> string \<Rightarrow> string \<Rightarrow> string \<Rightarrow> message \<times> db" where
  "sendMessage st e senderId recipientId content =
     (let message = \<lparr>m_id = new_id e, m_senderId = senderId, m_recipientId = recipientId,
                     m_content = content, m_createdAt = now e\<rparr>
      in (message, st\<lparr>messages := messages st @ [message]\<rparr>))"

text \<open>A \<open>Set\<close> keeps its elements in the order of their first insertion.\<close>

definition set_add :: "'a list \<Rightarrow> 'a \<Rightarrow> 'a list" where
  "set_add partners x = (if x \<in> set partners then partners else partners @ [x])"

definition conversationPartners :: "db \<Rightarrow> string \<Rightarrow> string list" where
  "conversationPartners st userId =
     foldl (\<lambda>partners msg.
        (let partners1 = (if m_senderId msg = userId then set_add partners (m_recipientId msg)
                          else partners)
         in if m_recipientId msg = userId then set_add partners1 (m_senderId msg) else partners1))
       [] (messages st)"

definition listConversations :: "db \<Rightarrow> string \<Rightarrow> user option list" where
  "listConversations st userId = map (\<lambda>pid. getUserById st pid) (conversationPartners st userId)"

definition listMessagesBetween :: "db \<Rightarrow> string \<Rightarrow> string \<Rightarrow> message list" where
  "listMessagesBetween st a b =
     filter (\<lambda>m. (m_senderId m = a \<and> m_recipientId m = b) \<or> (m_senderId m = b \<and> m_recipientId m = a))
       (messages st)"

subsection \<open>Tips\<close>

definition sendTip :: "db \<Rightarrow> env \<Rightarrow> string \<Rightarrow> string \<Rightarrow> jsnum \<Rightarrow> tip \<times> db" where
  "sendTip st e senderId recipientId amount =
     (let tip = \<lparr>t_id = new_id e, t_senderId = senderId, t_recipientId = recipientId,
                 t_amount = amount, t_createdAt = now e\<rparr>
      in (tip, st\<lparr>tips := tips st @ [tip]\<rparr>))"

definition listTipsReceived :: "db \<Rightarrow> string \<Rightarrow> tip list" where
  "listTipsReceived st creatorId = filter (\<lambda>t. t_recipientId t = creatorId) (tips st)"

subsection \<open>Search\<close>

text \<open>
  A call of a method that the value does not have throws a \<open>TypeError\<close>, and so does
  the read of a property of \<open>null\<close> or \<open>undefined\<close>. Only a string has
  \<open>toLowerCase\<close> and only an array has \<open>some\<close>: a number, a boolean, an array or an
  object parsed from JSON has no \<open>toLowerCase\<close> that can be called, and a string, a
  number, a boolean or such an object no \<open>some\<close>.
\<close>

datatype exn = TypeError

text \<open>\<open>v.toLowerCase().includes(q)\<close>\<close>

definition lower_includes :: "jsval \<Rightarrow> string \<Rightarrow> exn + bool" where
  "lower_includes v q =
     (case v of JStr s \<Rightarrow> Inr (js_includes (toLowerCase s) q) | _ \<Rightarrow> Inl TypeError)"






section \<open>The request handlers (server.js)\<close>

text \<open>
  A handler answers with an error (the status code it sends: 400, 401, 403, 404 or 409,
  with its message) or with its payload and the collections as it leaves them. A handler
  that answers with an error has written nothing.
\<close>

datatype error =
    InvalidInput string
  | Unauthenticated string
  | Forbidden string
  | NotFound string
  | Conflict string

text \<open>
  The middleware: \<open>req.user\<close> is the user whose id is the session's \<open>userId\<close>, when the
  session has a truthy one and such a user exists. The session is an input of every
  request: \<open>None\<close> when there is none.
\<close>

definition req_user :: "db \<Rightarrow> string option \<Rightarrow> user option" where
  "req_user st sess =
     (case sess of None \<Rightarrow> None | Some uid \<Rightarrow> if uid = [] then None else getUserById st uid)"

text \<open>A destructuring default (\<open>{ x = d }\<close>) applies when the field is absent; \<open>x || d\<close> when
  it is falsy.\<close>

definition dflt :: "'a \<Rightarrow> 'a option \<Rightarrow> 'a" where
  "dflt d x = (case x of None \<Rightarrow> d | Some v \<Rightarrow> v)"

definition str_or :: "string option \<Rightarrow> string \<Rightarrow> string" where
  "str_or x d = (case x of None \<Rightarrow> d | Some s \<Rightarrow> if s = [] then d else s)"

definition num_or :: "jsnum option \<Rightarrow> jsnum \<Rightarrow> jsnum" where
  "num_or x d = (case x of None \<Rightarrow> d | Some n \<Rightarrow> if num_truthy n then n else d)"

subsection \<open>Registration and profile\<close>

definition api_register ::
  "db \<Rightarrow> env \<Rightarrow> string option \<Rightarrow> string option \<Rightarrow> string option \<Rightarrow> string option
     \<Rightarrow> error + (string \<times> string \<times> string) \<times> db" where
  "api_register st e username email password role =
     (if \<not> str_truthy username \<or> \<not> str_truthy email \<or> \<not> str_truthy password
      then Inl (InvalidInput ''Missing required fields'')
      else if getUserByUsername st (the username) \<noteq> None
      then Inl (Conflict ''Username already exists'')
      else Inr (createUser st e (the username) (the email) (dflt ''subscriber'' role)))"

text \<open>The body of a profile update is a JSON object: a list of fields.\<close>

definition field :: "(string \<times> jsval) list \<Rightarrow> string \<Rightarrow> jsval" where
  "field body k = (case map_of body k of None \<Rightarrow> JUndefined | Some v \<Rightarrow> v)"

text \<open>The value of a JSON string and the elements of a JSON array, read where the guard has
  established the type.\<close>

fun str_of :: "jsval \<Rightarrow> string" where
  "str_of (JStr s) = s"
| "str_of _ = []"

fun arr_of :: "jsval \<Rightarrow> jsval list" where
  "arr_of (JArr xs) = xs"
| "arr_of _ = []"

definition merge_profile :: "(string \<times> jsval) list \<Rightarrow> profile \<Rightarrow> profile" where
  "merge_profile body pr =
     (let pr1 = (if js_typeof (field body ''bio'') = ''string''
                 then pr\<lparr>bio := str_of (field body ''bio'')\<rparr> else pr);
          pr2 = (if js_typeof (field body ''profilePicture'') = ''string''
                 then pr1\<lparr>profilePicture := str_of (field body ''profilePicture'')\<rparr> else pr1);
          pr3 = (if js_typeof (field body ''banner'') = ''string''
                 then pr2\<lparr>banner := str_of (field body ''banner'')\<rparr> else pr2);
          pr4 = (if js_typeof (field body ''socialLinks'') = ''object''
                 then pr3\<lparr>socialLinks := field body ''socialLinks''\<rparr> else pr3);
          pr5 = (if isArray (field body ''subscriptionPlans'')
                 then pr4\<lparr>subscriptionPlans := arr_of (field body ''subscriptionPlans'')\<rparr>
                 else pr4)
      in pr5)"

definition api_profile_update ::
  "db \<Rightarrow> string option \<Rightarrow> (string \<times> jsval) list \<Rightarrow> error + profile \<times> db" where
  "api_profile_update st sess body =
     (case req_user st sess of
        None \<Rightarrow> Inl (Unauthenticated ''Not authenticated'')
      | Some u \<Rightarrow>
          Inr (merge_profile body (u_profile u),
               st\<lparr>users := update_first (\<lambda>x. u_id x = u_id u)
                    (\<lambda>x. x\<lparr>u_profile := merge_profile body (u_profile x)\<rparr>) (users st)\<rparr>))"

subsection \<open>Posts and subscriptions\<close>

definition api_posts_create ::
  "db \<Rightarrow> string option \<Rightarrow> env \<Rightarrow> jsval \<Rightarrow> string option \<Rightarrow> jsnum option \<Rightarrow> bool option
     \<Rightarrow> jsval \<Rightarrow> error + post \<times> db" where
  "api_posts_create st sess e content type price subscriberOnly tags =
     (case req_user st sess of
        None \<Rightarrow> Inl (Unauthenticated ''Not authenticated'')
      | Some u \<Rightarrow>
          if u_role u \<noteq> ''creator'' then Inl (Forbidden ''Only creators can post'')
          else if \<not> js_truthy content then Inl (InvalidInput ''Missing content'')
          else Inr (createPost st e (u_id u) content (dflt ''text'' type) (dflt (Fin 0) price)
                      (dflt False subscriberOnly) (jdflt (JArr []) tags)))"

definition api_posts_list :: "db \<Rightarrow> string option \<Rightarrow> string \<Rightarrow> error + post list" where
  "api_posts_list st sess creatorUsername =
     (case getUserByUsername st creatorUsername of
        None \<Rightarrow> Inl (NotFound ''Creator not found'')
      | Some creator \<Rightarrow>
          if u_role creator \<noteq> ''creator'' then Inl (NotFound ''Creator not found'')
          else Inr (listPosts st (u_id creator)
                      (case req_user st sess of None \<Rightarrow> None | Some u \<Rightarrow> Some (u_id u))))"

definition api_subscribe ::
  "db \<Rightarrow> string option \<Rightarrow> env \<Rightarrow> string \<Rightarrow> string option \<Rightarrow> error + subscription \<times> db" where
  "api_subscribe st sess e creatorUsername plan =
     (case req_user st sess of
        None \<Rightarrow> Inl (Unauthenticated ''Not authenticated'')
      | Some u \<Rightarrow>
          (case getUserByUsername st creatorUsername of
             None \<Rightarrow> Inl (NotFound ''Creator not found'')
           | Some creator \<Rightarrow>
               if u_role creator \<noteq> ''creator'' then Inl (NotFound ''Creator not found'')
               else if u_id creator = u_id u then Inl (InvalidInput ''Cannot subscribe to yourself'')
               else Inr (subscribe st e (u_id u) (u_id creator) (str_or plan ''monthly''))))"

subsection \<open>Store and orders\<close>

definition api_store_create ::
  "db \<Rightarrow> string option \<Rightarrow> env \<Rightarrow> string \<Rightarrow> string option \<Rightarrow> string option \<Rightarrow> jsval
     \<Rightarrow> error + storeItem \<times> db" where
  "api_store_create st sess e creatorUsername name description price =
     (case req_user st sess of
        None \<Rightarrow> Inl (Unauthenticated ''Not authenticated'')
      | Some u \<Rightarrow>
          (case getUserByUsername st creatorUsername of
             None \<Rightarrow> Inl (Forbidden ''Not authorised to add items'')
           | Some creator \<Rightarrow>
               if u_id creator \<noteq> u_id u then Inl (Forbidden ''Not authorised to add items'')
               else if \<not> str_truthy name \<or> js_typeof price \<noteq> ''number''
               then Inl (InvalidInput ''Missing fields'')
               else (case price of
                       JNum n \<Rightarrow> Inr (createStoreItem st e (u_id u) (the name) (str_or description []) n)
                     | _ \<Rightarrow> Inl (InvalidInput ''Missing fields''))))"

definition api_order_create ::
  "db \<Rightarrow> string option \<Rightarrow> env \<Rightarrow> string \<Rightarrow> error + order \<times> db" where
  "api_order_create st sess e itemId =
     (case req_user st sess of
        None \<Rightarrow> Inl (Unauthenticated ''Not authenticated'')
      | Some u \<Rightarrow>
          (case findStoreItemById st itemId of
             None \<Rightarrow> Inl (NotFound ''Item not found'')
           | Some item \<Rightarrow>
               if i_creatorId item = u_id u then Inl (InvalidInput ''Cannot order your own item'')
               else Inr (createOrder st e (i_id item) (u_id u))))"

subsection \<open>Referrals\<close>

text \<open>The literal \<open>0.2\<close> is the double nearest to one fifth.\<close>

definition api_referral_create ::
  "db \<Rightarrow> string option \<Rightarrow> env \<Rightarrow> string option \<Rightarrow> string option \<Rightarrow> jsnum option
     \<Rightarrow> error + referral \<times> db" where
  "api_referral_create st sess e creatorId code commission =
     (case req_user st sess of
        None \<Rightarrow> Inl (Unauthenticated ''Not authenticated'')
      | Some u \<Rightarrow>
          if \<not> str_truthy code then Inl (InvalidInput ''Missing code'')
          else Inr (createReferral st e (dflt (u_id u) creatorId) (u_id u) (the code)
                      (num_or commission (js_round (1 / 5)))))"

definition api_referral_signup :: "db \<Rightarrow> string \<Rightarrow> error + referral \<times> db" where
  "api_referral_signup st code =
     (case recordReferralSignup st code of
        (None, _) \<Rightarrow> Inl (NotFound ''Referral code not found'')
      | (Some ref, st') \<Rightarrow> Inr (ref, st'))"

definition api_referral_earn :: "db \<Rightarrow> string \<Rightarrow> jsval \<Rightarrow> error + referral \<times> db" where
  "api_referral_earn st code amount =
     (case amount of
        JNum a \<Rightarrow>
          (case addReferralEarning st code a of
             (None, _) \<Rightarrow> Inl (NotFound ''Referral code not found'')
           | (Some ref, st') \<Rightarrow> Inr (ref, st'))
      | _ \<Rightarrow> Inl (InvalidInput ''Missing amount''))"

subsection \<open>Messages and tips\<close>

definition api_message_send ::
  "db \<Rightarrow> string option \<Rightarrow> env \<Rightarrow> string option \<Rightarrow> string option \<Rightarrow> error + message \<times> db" where
  "api_message_send st sess e recipientUsername content =
     (case req_user st sess of
        None \<Rightarrow> Inl (Unauthenticated ''Not authenticated'')
      | Some u \<Rightarrow>
          if \<not> str_truthy recipientUsername \<or> \<not> str_truthy content
          then Inl (InvalidInput ''Missing fields'')
          else (case getUserByUsername st (the recipientUsername) of
                  None \<Rightarrow> Inl (NotFound ''Recipient not found'')
                | Some recipient \<Rightarrow>
                    Inr (sendMessage st e (u_id u) (u_id recipient) (the content))))"

definition api_message_conversations :: "db \<Rightarrow> string option \<Rightarrow> error + user option list" where
  "api_message_conversations st sess =
     (case req_user st sess of
        None \<Rightarrow> Inl (Unauthenticated ''Not authenticated'')
      | Some u \<Rightarrow> Inr (listConversations st (u_id u)))"

definition api_tip_send ::
  "db \<Rightarrow> string option \<Rightarrow> env \<Rightarrow> string \<Rightarrow> jsval \<Rightarrow> error + tip \<times> db" where
  "api_tip_send st sess e creatorUsername amount =
     (case req_user st sess of
        None \<Rightarrow> Inl (Unauthenticated ''Not authenticated'')
      | Some u \<Rightarrow>
          (case amount of
             JNum a \<Rightarrow>
               if js_le a (Fin 0) then Inl (InvalidInput ''Invalid amount'')
               else (case getUserByUsername st creatorUsername of
                       None \<Rightarrow> Inl (NotFound ''Creator not found'')
                     | Some creator \<Rightarrow>
                         if u_role creator \<noteq> ''creator'' then Inl (NotFound ''Creator not found'')
                         else if u_id creator = u_id u then Inl (InvalidInput ''Cannot tip yourself'')
                         else Inr (sendTip st e (u_id u) (u_id creator) a))
           | _ \<Rightarrow> Inl (InvalidInput ''Invalid amount'')))"

subsection \<open>Administration\<close>

definition api_admin_delete_post :: "db \<Rightarrow> string option \<Rightarrow> string \<Rightarrow> error + unit \<times> db" where
  "api_admin_delete_post st sess postId =
     (case req_user st sess of
        None \<Rightarrow> Inl (Forbidden ''Admin only'')
      | Some u \<Rightarrow>
          if u_role u \<noteq> ''admin'' then Inl (Forbidden ''Admin only'')
          else (case deletePostById st postId of
                  (False, _) \<Rightarrow> Inl (NotFound ''Post not found'')
                | (True, st') \<Rightarrow> Inr ((), st')))"

section \<open>The states the server reaches\<close>

text \<open>
  Every request that writes to a collection. The other routes (profile, lists, search,
  login, logout, the chatbot and streaming stubs) read the collections or the session
  only. A request comes with the session's user id and the values the environment hands
  to the handler; any session and any such values are allowed for.

  A registration awaits the password hash between its check of the name and the append
  in \<open>createUser\<close>, and other requests are handled meanwhile. \<open>Register\<close> is a
  registration that no other request interleaves with; \<open>FinishRegistration\<close> is the
  append of one whose check of the name was made in an earlier state.
\<close>

datatype request =
    Register "string option" "string option" "string option" "string option"
  | FinishRegistration string string string
  | UpdateProfile "(string \<times> jsval) list"
  | CreatePost jsval "string option" "jsnum option" "bool option" jsval
  | Subscribe string "string option"
  | CreateStoreItem string "string option" "string option" jsval
  | CreateOrder string
  | CreateReferral "string option" "string option" "jsnum option"
  | ReferralSignup string
  | ReferralEarn string jsval
  | SendMessage "string option" "string option"
  | SendTip string jsval
  | AdminDeletePost string

definition written :: "db \<Rightarrow> error + 'a \<times> db \<Rightarrow> db" where
  "written st r = (case r of Inl _ \<Rightarrow> st | Inr (_, st') \<Rightarrow> st')"

fun step :: "db \<Rightarrow> string option \<Rightarrow> env \<Rightarrow> request \<Rightarrow> db" where
  "step st sess e (Register username email password role) =
     written st (api_register st e username email password role)"
| "step st sess e (FinishRegistration username email role) =
     snd (createUser st e username email role)"
| "step st sess e (UpdateProfile body) = written st (api_profile_update st sess body)"
| "step st sess e (CreatePost content type price subscriberOnly tags) =
     written st (api_posts_create st sess e content type price subscriberOnly tags)"
| "step st sess e (Subscribe creatorUsername plan) =
     written st (api_subscribe st sess e creatorUsername plan)"
| "step st sess e (CreateStoreItem creatorUsername name description price) =
     written st (api_store_create st sess e creatorUsername name description price)"
| "step st sess e (CreateOrder itemId) = written st (api_order_create st sess e itemId)"
| "step st sess e (CreateReferral creatorId code commission) =
     written st (api_referral_create st sess e creatorId code commission)"
| "step st sess e (ReferralSignup code) = written st (api_referral_signup st code)"
| "step st sess e (ReferralEarn code amount) = written st (api_referral_earn st code amount)"
| "step st sess e (SendMessage recipientUsername content) =
     written st (api_message_send st sess e recipientUsername content)"
| "step st sess e (SendTip creatorUsername amount) =
     written st (api_tip_send st sess e creatorUsername amount)"
| "step st sess e (AdminDeletePost postId) = written st (api_admin_delete_post st sess postId)"

inductive reachable :: "db \<Rightarrow> bool" where
  init: "reachable empty_db"
| request: "reachable st \<Longrightarrow> reachable (step st sess e req)"

section \<open>A scenario\<close>

text \<open>
  The states of a short session, used to run the handlers on concrete input: ana registers
  as a creator and bo as a subscriber; ana publishes a public and a subscriber-only post;
  bo subscribes to ana; ana lists a store item and bo orders it.
\<close>

definition env_at :: "string \<Rightarrow> nat \<Rightarrow> env" where
  "env_at i t = \<lparr>new_id = i, now = t, pw_hash = ''$2b$10$N9qo8uLOickgx2ZMRZoMye''\<rparr>"

definition ana :: user where
  "ana = \<lparr>u_id = ''u1'', u_username = ''ana'', u_email = ''ana@example.org'',
           u_passwordHash = ''$2b$10$N9qo8uLOickgx2ZMRZoMye'', u_role = ''creator'',
           u_createdAt = 1,
           u_profile = \<lparr>bio = [], profilePicture = [], banner = [],
                        socialLinks = JObj [], subscriptionPlans = []\<rparr>\<rparr>"

definition bo :: user where
  "bo = \<lparr>u_id = ''u2'', u_username = ''bo'', u_email = ''bo@example.org'',
          u_passwordHash = ''$2b$10$N9qo8uLOickgx2ZMRZoMye'', u_role = ''subscriber'',
          u_createdAt = 2,
          u_profile = \<lparr>bio = [], profilePicture = [], banner = [],
                       socialLinks = JObj [], subscriptionPlans = []\<rparr>\<rparr>"

definition post1 :: post where
  "post1 = \<lparr>p_id = ''p1'', p_creatorId = ''u1'', p_content = JStr ''Hello world'', p_type = ''text'',
             p_price = Fin 0, p_subscriberOnly = False, p_tags = JArr [], p_createdAt = 3,
             p_likes = Fin 0, p_views = Fin 0\<rparr>"

definition post2 :: post where
  "post2 = \<lparr>p_id = ''p2'', p_creatorId = ''u1'', p_content = JStr ''Studio notes'', p_type = ''text'',
             p_price = Fin 0, p_subscriberOnly = True,
             p_tags = JArr [JStr ''Art'', JStr ''sketch''],
             p_createdAt = 4, p_likes = Fin 0, p_views = Fin 0\<rparr>"

definition sub1 :: subscription where
  "sub1 = \<lparr>s_id = ''s1'', s_subscriberId = ''u2'', s_creatorId = ''u1'', s_plan = ''monthly'',
            s_status = ''active'', s_createdAt = 5\<rparr>"

definition item1 :: storeItem where
  "item1 = \<lparr>i_id = ''i1'', i_creatorId = ''u1'', i_name = ''sticker'', i_description = [],
             i_price = Fin 5, i_createdAt = 6\<rparr>"

definition order1 :: order where
  "order1 = \<lparr>o_id = ''o1'', o_itemId = ''i1'', o_buyerId = ''u2'', o_status = ''pending'',
              o_createdAt = 7\<rparr>"

definition msg1 :: message where
  "msg1 = \<lparr>m_id = ''m1'', m_senderId = ''u1'', m_recipientId = ''u1'',
            m_content = ''note to self'', m_createdAt = 8\<rparr>"

definition db1 :: db where
  "db1 = step empty_db None (env_at ''u1'' 1)
           (Register (Some ''ana'') (Some ''ana@example.org'') (Some ''pw-ana'') (Some ''creator''))"

definition db2 :: db where
  "db2 = step db1 None (env_at ''u2'' 2)
           (Register (Some ''bo'') (Some ''bo@example.org'') (Some ''pw-bo'') None)"

definition db3 :: db where
  "db3 = step db2 (Some ''u1'') (env_at ''p1'' 3)
           (CreatePost (JStr ''Hello world'') None None None JUndefined)"

definition db4 :: db where
  "db4 = step db3 (Some ''u1'') (env_at ''p2'' 4)
           (CreatePost (JStr ''Studio notes'') None None (Some True)
              (JArr [JStr ''Art'', JStr ''sketch'']))"

definition db5 :: db where
  "db5 = step db4 (Some ''u2'') (env_at ''s1'' 5) (Subscribe ''ana'' None)"

definition db6 :: db where
  "db6 = step db5 (Some ''u1'') (env_at ''i1'' 6)
           (CreateStoreItem ''ana'' (Some ''sticker'') None (JNum (Fin 5)))"

definition db7 :: db where
  "db7 = step db6 (Some ''u2'') (env_at ''o1'' 7) (CreateOrder ''i1'')"

text \<open>ana writes to herself.\<close>

definition db8 :: db where
  "db8 = step db7 (Some ''u1'') (env_at ''m1'' 8) (SendMessage (Some ''ana'') (Some ''note to self''))"






text \<open>bo creates the referral code REF1 with commission 0.25; ana then creates REF1 again.\<close>

definition dbr1 :: db where
  "dbr1 = step db2 (Some ''u2'') (env_at ''r1'' 3)
            (CreateReferral None (Some ''REF1'') (Some (Fin (1 / 4))))"

definition dbr2 :: db where
  "dbr2 = step dbr1 (Some ''u1'') (env_at ''r2'' 4) (CreateReferral None (Some ''REF1'') None)"

section \<open>Matching without regard to case, as the specification words it\<close>






section \<open>Sequences of calls\<close>

text \<open>A run applies requests one after the other, each with its session and environment.\<close>

fun run :: "db \<Rightarrow> (string option \<times> env \<times> request) list \<Rightarrow> db" where
  "run st [] = st"
| "run st ((sess, e, req) # rest) = run (step st sess e req) rest"

text \<open>Successive calls of \<open>POST /api/referral/:code/earn\<close> for one code, with numeric amounts.\<close>

fun earn_calls :: "db \<Rightarrow> string \<Rightarrow> jsnum list \<Rightarrow> db" where
  "earn_calls st code [] = st"
| "earn_calls st code (a # as) = earn_calls (written st (api_referral_earn st code (JNum a))) code as"

text \<open>
  The amounts \<open>as\<close>, added at commission \<open>m\<close> to earnings \<open>e\<close>, are exact when every product
  and every partial sum is a double as it stands.
\<close>

fun exact_sums :: "rat \<Rightarrow> rat \<Rightarrow> rat list \<Rightarrow> bool" where
  "exact_sums m e [] = True"
| "exact_sums m e (a # as) =
     (js_round (a * m) = Fin (a * m) \<and> js_round (e + a * m) = Fin (e + a * m) \<and>
      exact_sums m (e + a * m) as)"

text \<open>
  A request adds nothing negative when it is not an earning call, or its code is unknown,
  or the product of its amount and the commission of the referral it reaches is a number
  that is at least zero. A run adds nothing negative when each of its requests does, in the
  state it meets.
\<close>

definition nonneg_earn :: "db \<Rightarrow> request \<Rightarrow> bool" where
  "nonneg_earn st req =
     (case req of
        ReferralEarn code amount \<Rightarrow>
          (case amount of
             JNum a \<Rightarrow>
               (case getReferralByCode st code of
                  None \<Rightarrow> True
                | Some r \<Rightarrow> js_le (Fin 0) (js_mul a (r_commission r)))
           | _ \<Rightarrow> True)
      | _ \<Rightarrow> True)"

fun nonneg_run :: "db \<Rightarrow> (string option \<times> env \<times> request) list \<Rightarrow> bool" where
  "nonneg_run st [] = True"
| "nonneg_run st ((sess, e, req) # rest) = (nonneg_earn st req \<and> nonneg_run (step st sess e req) rest)"

text \<open>
  Earnings on the code REF1 (commission 0.25): 100, then \<open>-40\<close>. And a code SUM with
  commission 1, to add 0.1, 0.2 and 0.3 in two orders.
\<close>

definition dbe1 :: db where
  "dbe1 = step dbr1 None (env_at [] 5) (ReferralEarn ''REF1'' (JNum (Fin 100)))"

definition dbe2 :: db where
  "dbe2 = step dbe1 None (env_at [] 6) (ReferralEarn ''REF1'' (JNum (Fin (- 40))))"

definition dbs :: db where
  "dbs = step db2 (Some ''u2'') (env_at ''r3'' 3) (CreateReferral None (Some ''SUM'') (Some (Fin 1)))"

section \<open>Properties\<close>

subsection \<open>Unfolding, lookups and updates in place\<close>

lemmas api_defs = api_register_def api_profile_update_def api_posts_create_def api_subscribe_def
  api_store_create_def api_order_create_def api_referral_create_def api_referral_signup_def
  api_referral_earn_def api_message_send_def api_tip_send_def api_admin_delete_post_def

lemmas model_defs = createUser_def createPost_def subscribe_def createStoreItem_def createOrder_def
  createReferral_def recordReferralSignup_def addReferralEarning_def sendMessage_def sendTip_def
  deletePostById_def

lemmas scenario_defs = db7_def db6_def db5_def db4_def db3_def db2_def db1_def

text \<open>The definitions that a handler unfolds to when it is run on a given request.\<close>

lemmas handler_eval = written_def api_defs model_defs req_user_def getUserById_def
  getUserByUsername_def findStoreItemById_def getReferralByCode_def dflt_def jdflt_def
  str_or_def num_or_def num_truthy_def Let_def env_at_def

lemmas record_eval = ana_def bo_def post1_def post2_def sub1_def item1_def order1_def msg1_def

text \<open>\<^const>\<open>find\<close> returns the first element that satisfies the test, and an update in place
  reaches that element only.\<close>

lemma find_Some_P: "find P xs = Some x \<Longrightarrow> P x"
  by (induction xs) (auto split: if_splits)

lemma find_append_Some: "find P xs = Some y \<Longrightarrow> find P (xs @ zs) = Some y"
  by (induction xs) auto

lemma find_update_first:
  "find P xs = Some x \<Longrightarrow> P (f x) \<Longrightarrow> find P (update_first P f xs) = Some (f x)"
  by (induction xs) (auto split: if_splits)

lemma update_first_length [simp]: "length (update_first P f xs) = length xs"
  by (induction xs) auto

lemma update_first_nth:
  "i < length xs \<Longrightarrow>
   update_first P f xs ! i = xs ! i \<or>
   (find P xs = Some (xs ! i) \<and> update_first P f xs ! i = f (xs ! i))"
proof (induction xs arbitrary: i)
  case Nil
  then show ?case by simp
next
  case (Cons x xs)
  show ?case
  proof (cases i)
    case 0
    then show ?thesis by simp
  next
    case (Suc j)
    with Cons.prems have "j < length xs" by simp
    from Cons.IH[OF this] Suc show ?thesis by auto
  qed
qed

lemma set_update_first: "set (update_first P f xs) \<subseteq> set xs \<union> f ` set xs"
  by (induction xs) auto

text \<open>The user of a request has the session's id, which is not empty.\<close>

lemma req_user_Some: "req_user st sess = Some u \<Longrightarrow> sess = Some (u_id u) \<and> u_id u \<noteq> []"
  by (auto simp: req_user_def getUserById_def split: option.splits if_splits dest: find_Some_P)

subsection \<open>Rounding to the nearest double\<close>

text \<open>Powers of two.\<close>

lemma pow2_powi: "pow2 e = 2 powi e"
  by (simp add: pow2_def power_int_def inverse_eq_divide power_one_over)

lemma pow2_pos [simp]: "0 < pow2 e"
  by (simp add: pow2_def)

lemma pow2_nonneg [simp]: "0 \<le> pow2 e"
  by (simp add: pow2_def)

lemma pow2_neq0 [simp]: "pow2 e \<noteq> 0"
  by (simp add: pow2_def)

lemma pow2_add: "pow2 (a + b) = pow2 a * pow2 b"
  by (simp add: pow2_powi power_int_add)

lemma pow2_diff: "pow2 (a - b) = pow2 a / pow2 b"
  by (simp add: pow2_powi power_int_diff)

lemma pow2_mono: "a \<le> b \<Longrightarrow> pow2 a \<le> pow2 b"
  by (simp add: pow2_powi power_int_increasing)

lemma pow2_strict_mono: "a < b \<Longrightarrow> pow2 a < pow2 b"
  by (simp add: pow2_powi power_int_strict_increasing)

lemma pow2_le_iff: "pow2 a \<le> pow2 b \<longleftrightarrow> a \<le> b"
  using pow2_mono[of a b] pow2_strict_mono[of b a] by (auto simp: not_le[symmetric])

lemma pow2_less_iff: "pow2 a < pow2 b \<longleftrightarrow> a < b"
  using pow2_le_iff[of b a] by (auto simp: not_le[symmetric])

lemma pow2_0 [simp]: "pow2 0 = 1" by (simp add: pow2_def)

lemma pow2_1 [simp]: "pow2 1 = 2" by (simp add: pow2_def)

lemma pow2_nat_int: "0 \<le> k \<Longrightarrow> pow2 k = of_int (2 ^ nat k)"
  by (simp add: pow2_def)

lemma pow2_53: "pow2 53 = of_int (2 ^ 53)"
  by (simp add: pow2_def)

lemma pow2_52: "pow2 52 = of_int (2 ^ 52)"
  by (simp add: pow2_def)

text \<open>\<^const>\<open>ilog2\<close> finds the binade: the only exponent \<open>e\<close> with \<open>2^e \<le> x < 2^(e+1)\<close>.\<close>

lemma bitlen_pow2_bounds:
  assumes "0 < p"
  shows "pow2 (bitlen p - 1) \<le> of_int p" and "of_int p < pow2 (bitlen p)"
proof -
  from bitlen_bounds[OF assms] have lo: "2 ^ nat (bitlen p - 1) \<le> p" and hi: "p < 2 ^ nat (bitlen p)"
    by auto
  have pos: "1 \<le> bitlen p" using assms bitlen_eq_zero_iff[of p] bitlen_nonneg[of p] by linarith
  from lo have "(of_int (2 ^ nat (bitlen p - 1)) :: rat) \<le> of_int p" by (simp only: of_int_le_iff)
  with pos show "pow2 (bitlen p - 1) \<le> of_int p" by (simp add: pow2_def)
  from hi have "(of_int p :: rat) < of_int (2 ^ nat (bitlen p))" by (simp only: of_int_less_iff)
  with pos show "of_int p < pow2 (bitlen p)" by (simp add: pow2_def)
qed

lemma ilog2_bounds:
  assumes "0 < x"
  shows "pow2 (ilog2 x) \<le> x \<and> x < pow2 (ilog2 x + 1)"
proof -
  obtain p q where pq: "quotient_of x = (p, q)" by (cases "quotient_of x")
  then have q: "0 < q" by (rule quotient_of_denom_pos)
  from pq have x: "x = of_int p / of_int q" by (rule quotient_of_div)
  with assms q have p: "0 < p" by (simp add: zero_less_divide_iff)
  define d where "d = bitlen p - bitlen q"
  note bp = bitlen_pow2_bounds[OF p] and bq = bitlen_pow2_bounds[OF q]
  have qpos: "(0::rat) < of_int q" using q by simp
  have "x < pow2 (bitlen p) / pow2 (bitlen q - 1)"
    unfolding x using bp(2) bq(1) qpos p
    by (intro frac_less) (auto simp: less_imp_le)
  then have hi: "x < pow2 (d + 1)"
    by (simp add: d_def pow2_diff[symmetric] algebra_simps)
  have "pow2 (bitlen p - 1) / pow2 (bitlen q) < x"
    unfolding x using bp(1) bq(2) qpos p
    by (intro frac_less2) auto
  then have lo: "pow2 (d - 1) < x"
    by (simp add: d_def pow2_diff[symmetric] algebra_simps)
  have il: "ilog2 x = (if pow2 d \<le> x then d else d - 1)"
    by (simp add: ilog2_def pq d_def Let_def)
  show ?thesis
  proof (cases "pow2 d \<le> x")
    case True
    with il hi show ?thesis by simp
  next
    case False
    with il lo show ?thesis by (simp add: not_le less_imp_le)
  qed
qed

lemma ilog2_unique:
  assumes "0 < x" "pow2 e \<le> x" "x < pow2 (e + 1)"
  shows "ilog2 x = e"
proof -
  from ilog2_bounds[OF assms(1)] have b: "pow2 (ilog2 x) \<le> x" "x < pow2 (ilog2 x + 1)" by auto
  from b(1) assms(3) have "pow2 (ilog2 x) < pow2 (e + 1)" by (rule le_less_trans)
  then have 1: "ilog2 x < e + 1" by (simp add: pow2_less_iff)
  from assms(2) b(2) have "pow2 e < pow2 (ilog2 x + 1)" by (rule le_less_trans)
  then have 2: "e < ilog2 x + 1" by (simp add: pow2_less_iff)
  from 1 2 show ?thesis by simp
qed

lemma ilog2_mono:
  assumes "0 < x" "x \<le> y"
  shows "ilog2 x \<le> ilog2 y"
proof -
  from assms have y: "0 < y" by simp
  from ilog2_bounds[OF assms(1)] ilog2_bounds[OF y] assms(2)
  have "pow2 (ilog2 x) < pow2 (ilog2 y + 1)" by linarith
  then show ?thesis by (simp add: pow2_less_iff)
qed

text \<open>Rounding to an integer keeps integers and the order.\<close>

lemma rne_of_int [simp]: "rne (of_int n) = n"
  by (simp add: rne_def)

lemma rne_floor_bounds: "\<lfloor>x\<rfloor> \<le> rne x \<and> rne x \<le> \<lfloor>x\<rfloor> + 1"
  by (simp add: rne_def Let_def)

lemma rne_mono:
  assumes "x \<le> y"
  shows "rne x \<le> rne y"
proof (cases "\<lfloor>x\<rfloor> = \<lfloor>y\<rfloor>")
  case True
  with assms have "x - of_int \<lfloor>x\<rfloor> \<le> y - of_int \<lfloor>y\<rfloor>" by simp
  with True show ?thesis by (auto simp: rne_def Let_def)
next
  case False
  with assms have "\<lfloor>x\<rfloor> + 1 \<le> \<lfloor>y\<rfloor>" using floor_mono[OF assms] by linarith
  with rne_floor_bounds[of x] rne_floor_bounds[of y] show ?thesis by linarith
qed

lemma rne_ge_int: "of_int k \<le> x \<Longrightarrow> k \<le> rne x"
  using rne_mono[of "of_int k" x] by simp

lemma rne_le_int: "x \<le> of_int k \<Longrightarrow> rne x \<le> k"
  using rne_mono[of x "of_int k"] by simp

text \<open>Rounding to a double keeps the order: within a binade by the above, across binades
  because a rounded value stays between the powers of two around it.\<close>

lemma ulp_exp_ge: "- 1074 \<le> ulp_exp x"
  by (simp add: ulp_exp_def)

lemma ulp_exp_mono: "0 < x \<Longrightarrow> x \<le> y \<Longrightarrow> ulp_exp x \<le> ulp_exp y"
  using ilog2_mono[of x y] by (simp add: ulp_exp_def)

lemma scaled_less_53:
  assumes "0 < x"
  shows "x / pow2 (ulp_exp x) < pow2 53"
proof -
  from ilog2_bounds[OF assms] have "x < pow2 (ilog2 x + 1)" by simp
  also have "\<dots> \<le> pow2 (ulp_exp x + 53)"
    by (rule pow2_mono) (simp add: ulp_exp_def)
  also have "\<dots> = pow2 53 * pow2 (ulp_exp x)" by (simp add: pow2_add)
  finally show ?thesis by (simp add: pos_divide_less_eq)
qed

lemma rne_scaled_le:
  assumes "0 < x"
  shows "rne (x / pow2 (ulp_exp x)) \<le> 2 ^ 53"
  using scaled_less_53[OF assms] unfolding pow2_53 by (intro rne_le_int) simp

lemma rne_scaled_nonneg:
  assumes "0 < x"
  shows "0 \<le> rne (x / pow2 (ulp_exp x))"
  using assms by (intro rne_ge_int) simp

lemma round_pos_nonneg: "0 < x \<Longrightarrow> 0 \<le> round_pos x"
  using rne_scaled_nonneg[of x] by (simp add: round_pos_def)

lemma round_pos_upper:
  assumes "0 < x"
  shows "round_pos x \<le> pow2 (ulp_exp x + 53)"
proof -
  have "(of_int (rne (x / pow2 (ulp_exp x))) :: rat) \<le> of_int (2 ^ 53)"
    using rne_scaled_le[OF assms] by (simp only: of_int_le_iff)
  then have "round_pos x \<le> of_int (2 ^ 53) * pow2 (ulp_exp x)"
    unfolding round_pos_def by (intro mult_right_mono) simp_all
  then show ?thesis by (simp add: pow2_add pow2_53 mult.commute)
qed

lemma round_pos_lower:
  assumes "0 < x" "- 1022 \<le> ilog2 x"
  shows "pow2 (ilog2 x) \<le> round_pos x"
proof -
  from assms(2) have u: "ulp_exp x = ilog2 x - 52" by (simp add: ulp_exp_def)
  from ilog2_bounds[OF assms(1)] have "pow2 (ilog2 x) \<le> x" by simp
  then have "pow2 (ilog2 x) / pow2 (ulp_exp x) \<le> x / pow2 (ulp_exp x)"
    by (simp add: divide_right_mono)
  then have "of_int (2 ^ 52) \<le> x / pow2 (ulp_exp x)"
    by (simp add: u pow2_diff[symmetric] pow2_52)
  then have "2 ^ 52 \<le> rne (x / pow2 (ulp_exp x))" by (rule rne_ge_int)
  then have "(of_int (2 ^ 52) :: rat) \<le> of_int (rne (x / pow2 (ulp_exp x)))"
    by (simp only: of_int_le_iff)
  then have "of_int (2 ^ 52) * pow2 (ulp_exp x) \<le> round_pos x"
    unfolding round_pos_def by (intro mult_right_mono) simp_all
  moreover have "of_int (2 ^ 52) * pow2 (ulp_exp x) = pow2 (ilog2 x)"
    unfolding pow2_52[symmetric] u pow2_add[symmetric] by simp
  ultimately show ?thesis by simp
qed

lemma round_pos_mono:
  assumes "0 < x" "x \<le> y"
  shows "round_pos x \<le> round_pos y"
proof -
  from assms have y: "0 < y" by simp
  from ulp_exp_mono[OF assms] consider "ulp_exp x = ulp_exp y" | "ulp_exp x < ulp_exp y"
    by linarith
  then show ?thesis
  proof cases
    case 1
    from assms(2) have "x / pow2 (ulp_exp y) \<le> y / pow2 (ulp_exp y)"
      by (simp add: divide_right_mono)
    then have "rne (x / pow2 (ulp_exp y)) \<le> rne (y / pow2 (ulp_exp y))" by (rule rne_mono)
    then have "(of_int (rne (x / pow2 (ulp_exp y))) :: rat) \<le> of_int (rne (y / pow2 (ulp_exp y)))"
      by (simp only: of_int_le_iff)
    then show ?thesis unfolding round_pos_def 1 by (intro mult_right_mono) simp_all
  next
    case 2
    then have ey: "- 1022 < ilog2 y" and uy: "ulp_exp y = ilog2 y - 52"
      by (auto simp: ulp_exp_def max_def split: if_splits)
    from 2 uy have "ulp_exp x + 53 \<le> ilog2 y" by simp
    then have "pow2 (ulp_exp x + 53) \<le> pow2 (ilog2 y)" by (rule pow2_mono)
    with round_pos_upper[OF assms(1)] round_pos_lower[OF y] ey show ?thesis by simp
  qed
qed

lemma js_le_PInf [simp]: "js_le a PInf \<longleftrightarrow> a \<noteq> NaN"
  by (cases a) simp_all

lemma js_le_NInf_left [simp]: "js_le NInf a \<longleftrightarrow> a \<noteq> NaN"
  by (cases a) simp_all

lemma js_round_mono:
  assumes "x \<le> y"
  shows "js_le (js_round x) (js_round y)"
proof -
  consider "x = 0" | "0 < x" | "x < 0" by linarith
  then show ?thesis
  proof cases
    case 1
    with assms round_pos_nonneg[of y] show ?thesis by (auto simp: js_round_def)
  next
    case 2
    with assms have "0 < y" by simp
    with 2 round_pos_mono[OF 2 assms] show ?thesis by (auto simp: js_round_def)
  next
    case 3
    consider "y < 0" | "y = 0" | "0 < y" by linarith
    then show ?thesis
    proof cases
      case 1
      then have "0 < - y" "- y \<le> - x" using assms by simp_all
      from round_pos_mono[OF this] 3 1 show ?thesis by (auto simp: js_round_def)
    next
      case 2
      with 3 round_pos_nonneg[of "- x"] show ?thesis by (auto simp: js_round_def)
    next
      case 3
      with \<open>x < 0\<close> round_pos_nonneg[of "- x"] round_pos_nonneg[of y] show ?thesis
        by (auto simp: js_round_def) 
    qed
  qed
qed

text \<open>A number \<open>n * 2^k\<close> with \<open>n\<close> up to \<open>2^53\<close> and \<open>k\<close> from \<open>-1074\<close> on is a double as it stands;
  so is every result of rounding.\<close>

lemma round_pos_exact:
  assumes n: "0 < n" "n \<le> 2 ^ 53" and k: "- 1074 \<le> k"
  shows "round_pos (of_int n * pow2 k) = of_int n * pow2 k"
proof -
  define x where "x = of_int n * pow2 k"
  have x: "0 < x" using n by (simp add: x_def)
  define u where "u = ulp_exp x"
  from ilog2_bounds[OF x] have lo: "pow2 (ilog2 x) \<le> x" by simp
  have "x \<le> of_int (2 ^ 53) * pow2 k"
    unfolding x_def using n(2) by (intro mult_right_mono) (simp_all only: of_int_le_iff pow2_nonneg)
  then have xle: "x \<le> pow2 (k + 53)" by (simp add: pow2_add pow2_53 mult.commute)
  with lo have "pow2 (ilog2 x) \<le> pow2 (k + 53)" by simp
  then have e_le: "ilog2 x \<le> k + 53" by (simp add: pow2_le_iff)
  have "\<exists>m. x / pow2 u = of_int m"
  proof (cases "u \<le> k")
    case True
    have "x / pow2 u = of_int n * pow2 (k - u)" by (simp add: x_def pow2_diff)
    also have "\<dots> = of_int (n * 2 ^ nat (k - u))" using True by (simp add: pow2_nat_int)
    finally show ?thesis by blast
  next
    case False
    with k have u_eq: "u = ilog2 x - 52" and "k < ilog2 x - 52"
      by (auto simp: u_def ulp_exp_def max_def split: if_splits)
    with e_le have e: "ilog2 x = k + 53" by simp
    with lo xle have "x = pow2 (k + 53)" by simp
    then have "x / pow2 u = pow2 (k + 53 - u)" by (simp add: pow2_diff)
    also have "\<dots> = of_int (2 ^ 52)" using u_eq e by (simp add: pow2_52)
    finally show ?thesis by blast
  qed
  then obtain m where m: "x / pow2 u = of_int m" by blast
  then have "round_pos x = of_int m * pow2 u" by (simp add: round_pos_def u_def)
  also have "\<dots> = x" using m[symmetric] by simp
  finally show ?thesis by (simp add: x_def)
qed

lemma js_round_exact:
  assumes "\<bar>n\<bar> \<le> 2 ^ 53" "- 1074 \<le> k" "\<bar>of_int n * pow2 k\<bar> < pow2 1024"
  shows "js_round (of_int n * pow2 k) = Fin (of_int n * pow2 k)"
proof -
  define x where "x = of_int n * pow2 k"
  consider "n = 0" | "0 < n" | "n < 0" by linarith
  then show ?thesis
  proof cases
    case 1
    then show ?thesis by (simp add: js_round_def)
  next
    case 2
    then have x: "0 < x" by (simp add: x_def)
    from 2 assms have "round_pos x = x" "x < pow2 1024"
      using round_pos_exact[of n k] x by (simp_all add: x_def)
    with x show ?thesis by (simp add: js_round_def x_def[symmetric])
  next
    case 3
    then have x: "x < 0" by (simp add: x_def mult_less_0_iff)
    have neg: "- x = of_int (- n) * pow2 k" by (simp add: x_def)
    from 3 assms have "round_pos (- x) = - x" "- x < pow2 1024"
      using round_pos_exact[of "- n" k] x unfolding neg by (simp_all add: x_def)
    with x show ?thesis by (simp add: js_round_def x_def[symmetric])
  qed
qed

text \<open>Every integer up to \<open>2^53\<close> in magnitude is a double.\<close>

lemma js_round_int: "\<bar>n\<bar> \<le> 2 ^ 53 \<Longrightarrow> js_round (of_int n) = Fin (of_int n)"
proof -
  assume a: "\<bar>n\<bar> \<le> 2 ^ 53"
  then have "(of_int \<bar>n\<bar> :: rat) \<le> of_int (2 ^ 53)" by (simp only: of_int_le_iff)
  also have "\<dots> < pow2 1024" by (simp add: pow2_def)
  finally have "\<bar>of_int n * pow2 0\<bar> < pow2 1024" by simp
  with js_round_exact[of n 0] a show ?thesis by simp
qed

lemma round_pos_form:
  assumes "0 < x"
  shows "round_pos x = 0 \<or>
         (\<exists>n k. 0 < n \<and> n \<le> 2 ^ 53 \<and> - 1074 \<le> k \<and> round_pos x = of_int n * pow2 k)"
proof -
  define n where "n = rne (x / pow2 (ulp_exp x))"
  have r: "round_pos x = of_int n * pow2 (ulp_exp x)" by (simp add: round_pos_def n_def)
  from rne_scaled_le[OF assms] rne_scaled_nonneg[OF assms] have "0 \<le> n" "n \<le> 2 ^ 53"
    by (simp_all add: n_def)
  then consider "n = 0" | "0 < n" "n \<le> 2 ^ 53" by linarith
  then show ?thesis
  proof cases
    case 1
    with r show ?thesis by simp
  next
    case 2
    with r ulp_exp_ge[of x] show ?thesis by blast
  qed
qed

lemma round_pos_idem:
  assumes "0 < x"
  shows "round_pos (round_pos x) = round_pos x \<or> round_pos x = 0"
  using round_pos_form[OF assms] round_pos_exact by auto

lemma js_round_idem: "js_round x = Fin y \<Longrightarrow> js_round y = Fin y"
proof -
  assume a: "js_round x = Fin y"
  consider "x = 0" | "0 < x" | "x < 0" by linarith
  then show ?thesis
  proof cases
    case 1
    with a show ?thesis by (simp add: js_round_def)
  next
    case 2
    with a have y: "y = round_pos x" "\<not> pow2 1024 \<le> round_pos x"
      by (auto simp: js_round_def split: if_splits)
    from round_pos_idem[OF 2] round_pos_nonneg[OF 2] y show ?thesis
      by (auto simp: js_round_def)
  next
    case 3
    then have p: "0 < - x" by simp
    from 3 a have y: "y = - round_pos (- x)" "\<not> pow2 1024 \<le> round_pos (- x)"
      by (auto simp: js_round_def split: if_splits)
    from round_pos_idem[OF p] round_pos_nonneg[OF p] y show ?thesis
      by (auto simp: js_round_def)
  qed
qed

lemma is_double_js_round [simp]: "is_double (js_round x)"
  using js_round_idem[of x] by (auto simp: is_double_def split: jsnum.splits)

lemma is_double_special [simp]: "is_double PInf" "is_double NInf" "is_double NaN"
  by (simp_all add: is_double_def)

lemma is_double_js_add [simp]: "is_double (js_add a b)"
  by (cases "(a, b)" rule: js_add.cases) simp_all

lemma is_double_js_mul [simp]: "is_double (js_mul a b)"
  by (cases "(a, b)" rule: js_mul.cases) simp_all

lemma is_double_0 [simp]: "is_double (Fin 0)"
  by (simp add: is_double_def js_round_def)

text \<open>The order of the numbers, and adding what is not negative.\<close>

lemma js_le_refl: "a \<noteq> NaN \<Longrightarrow> js_le a a"
  by (cases a) simp_all

lemma js_le_trans: "js_le a b \<Longrightarrow> js_le b c \<Longrightarrow> js_le a c"
  by (cases a; cases b; cases c) simp_all

lemma js_le_not_lt: "js_le a b \<Longrightarrow> \<not> js_lt b a"
  by (cases a; cases b) simp_all

lemma js_add_nonneg:
  assumes "is_double old" "js_le (Fin 0) y"
  shows "js_add old y = NaN \<or> js_le old (js_add old y)"
proof (cases old)
  case (Fin q)
  with assms(1) have q: "js_round q = Fin q" by (simp add: is_double_def)
  show ?thesis
  proof (cases y)
    case (Fin z)
    with assms(2) have "q \<le> q + z" by simp
    from js_round_mono[OF this] q Fin \<open>old = Fin q\<close> show ?thesis by simp
  qed (use assms(2) Fin in simp_all)
next
  case PInf
  with assms(2) show ?thesis by (cases y) simp_all
next
  case NInf
  with assms(2) show ?thesis by (cases y) simp_all
next
  case NaN
  then show ?thesis by simp
qed

text \<open>Rounding a given number: once its binade is known, the rest is arithmetic.\<close>

lemma js_round_pos_eval:
  assumes "0 < x" "pow2 e \<le> x" "x < pow2 (e + 1)"
    and "r = of_int (rne (x / pow2 (max e (- 1022) - 52))) * pow2 (max e (- 1022) - 52)"
    and "r < pow2 1024"
  shows "js_round x = Fin r"
proof -
  from ilog2_unique[OF assms(1-3)] have "ulp_exp x = max e (- 1022) - 52"
    by (simp add: ulp_exp_def)
  with assms show ?thesis by (simp add: js_round_def round_pos_def not_le)
qed

lemma floor_rat_numeral: "\<lfloor>(numeral a / numeral b :: rat)\<rfloor> = numeral a div numeral b"
  using floor_divide_of_int_eq[of "numeral a" "numeral b", where ?'a = rat] by simp

lemmas js_eval = pow2_def rne_def Let_def floor_rat_numeral

lemma js_round_numeral:
  "(numeral n :: int) \<le> 2 ^ 53 \<Longrightarrow> js_round (numeral n) = Fin (numeral n)"
  using js_round_int[of "numeral n"] by simp

lemma js_round_neg_numeral:
  "(numeral n :: int) \<le> 2 ^ 53 \<Longrightarrow> js_round (- numeral n) = Fin (- numeral n)"
  using js_round_int[of "- numeral n"] by simp

lemma js_round_fifth: "js_round (1 / 5) = Fin (3602879701896397 / 18014398509481984)"
  by (rule js_round_pos_eval[where e = "- 3"]) (simp_all add: js_eval)

text \<open>The doubles of the literals 0.1, 0.2 and 0.3, and their sums in both orders.\<close>

lemma js_round_tenths:
  "js_round (1 / 10) = Fin (3602879701896397 / 36028797018963968)"
  "js_round (2 / 10) = Fin (3602879701896397 / 18014398509481984)"
  "js_round (3 / 10) = Fin (5404319552844595 / 18014398509481984)"
  by (rule js_round_pos_eval[where e = "- 4"], simp_all add: js_eval)
     (rule js_round_pos_eval[where e = "- 3"], simp_all add: js_eval,
      rule js_round_pos_eval[where e = "- 2"], simp_all add: js_eval)

lemma sum_up:
  "foldl (\<lambda>e a. js_add e (js_mul a (Fin 1))) (Fin 0)
     [Fin (3602879701896397 / 36028797018963968), Fin (3602879701896397 / 18014398509481984),
      Fin (5404319552844595 / 18014398509481984)] = Fin (1351079888211149 / 2251799813685248)"
proof -
  have m: "js_round (3602879701896397 / 36028797018963968) = Fin (3602879701896397 / 36028797018963968)"
    "js_round (3602879701896397 / 18014398509481984) = Fin (3602879701896397 / 18014398509481984)"
    "js_round (5404319552844595 / 18014398509481984) = Fin (5404319552844595 / 18014398509481984)"
    using js_round_idem[OF js_round_tenths(1)] js_round_idem[OF js_round_tenths(2)]
      js_round_idem[OF js_round_tenths(3)] by simp_all
  have s1: "js_round (10808639105689191 / 36028797018963968) = Fin (1351079888211149 / 4503599627370496)"
    by (rule js_round_pos_eval[where e = "- 2"]) (simp_all add: js_eval)
  have s2: "js_round (10808639105689191 / 18014398509481984) = Fin (1351079888211149 / 2251799813685248)"
    by (rule js_round_pos_eval[where e = "- 1"]) (simp_all add: js_eval)
  show ?thesis by (simp add: m s1 s2)
qed

lemma sum_down:
  "foldl (\<lambda>e a. js_add e (js_mul a (Fin 1))) (Fin 0)
     [Fin (5404319552844595 / 18014398509481984), Fin (3602879701896397 / 18014398509481984),
      Fin (3602879701896397 / 36028797018963968)] = Fin (5404319552844595 / 9007199254740992)"
proof -
  have m: "js_round (3602879701896397 / 36028797018963968) = Fin (3602879701896397 / 36028797018963968)"
    "js_round (3602879701896397 / 18014398509481984) = Fin (3602879701896397 / 18014398509481984)"
    "js_round (5404319552844595 / 18014398509481984) = Fin (5404319552844595 / 18014398509481984)"
    using js_round_idem[OF js_round_tenths(1)] js_round_idem[OF js_round_tenths(2)]
      js_round_idem[OF js_round_tenths(3)] by simp_all
  have s1: "js_round (1 / 2) = Fin (1 / 2)"
    by (rule js_round_pos_eval[where e = "- 1"]) (simp_all add: js_eval)
  have s2: "js_round (21617278211378381 / 36028797018963968) = Fin (5404319552844595 / 9007199254740992)"
    by (rule js_round_pos_eval[where e = "- 1"]) (simp_all add: js_eval)
  show ?thesis by (simp add: m s1 s2)
qed

subsection \<open>The states of the scenario, computed\<close>

lemma db1_eq:
  "db1 = \<lparr>users = [ana], posts = [], subscriptions = [], storeItems = [], orders = [],
           referrals = [], messages = [], tips = []\<rparr>"
  by (simp add: db1_def empty_db_def handler_eval record_eval)

lemma db2_eq:
  "db2 = \<lparr>users = [ana, bo], posts = [], subscriptions = [], storeItems = [], orders = [],
           referrals = [], messages = [], tips = []\<rparr>"
  by (simp add: db2_def db1_eq handler_eval record_eval)

lemma db3_eq:
  "db3 = \<lparr>users = [ana, bo], posts = [post1], subscriptions = [], storeItems = [], orders = [],
           referrals = [], messages = [], tips = []\<rparr>"
  by (simp add: db3_def db2_eq handler_eval record_eval)

lemma db4_eq:
  "db4 = \<lparr>users = [ana, bo], posts = [post1, post2], subscriptions = [], storeItems = [],
           orders = [], referrals = [], messages = [], tips = []\<rparr>"
  by (simp add: db4_def db3_eq handler_eval record_eval)

lemma db5_eq:
  "db5 = \<lparr>users = [ana, bo], posts = [post1, post2], subscriptions = [sub1], storeItems = [],
           orders = [], referrals = [], messages = [], tips = []\<rparr>"
  by (simp add: db5_def db4_eq handler_eval record_eval)

lemma db6_eq:
  "db6 = \<lparr>users = [ana, bo], posts = [post1, post2], subscriptions = [sub1],
           storeItems = [item1], orders = [], referrals = [], messages = [], tips = []\<rparr>"
  by (simp add: db6_def db5_eq handler_eval record_eval)

lemma db7_eq:
  "db7 = \<lparr>users = [ana, bo], posts = [post1, post2], subscriptions = [sub1],
           storeItems = [item1], orders = [order1], referrals = [], messages = [], tips = []\<rparr>"
  by (simp add: db7_def db6_eq handler_eval record_eval)

lemma db8_eq:
  "db8 = \<lparr>users = [ana, bo], posts = [post1, post2], subscriptions = [sub1],
           storeItems = [item1], orders = [order1], referrals = [], messages = [msg1],
           tips = []\<rparr>"
  by (simp add: db8_def db7_eq handler_eval record_eval)

lemmas referral_eval = written_def api_referral_create_def createReferral_def req_user_def
  getUserById_def getReferralByCode_def ana_def bo_def env_at_def dflt_def num_or_def Let_def
  num_truthy_def

lemma dbr1_eq:
  "dbr1 = \<lparr>users = [ana, bo], posts = [], subscriptions = [], storeItems = [], orders = [],
     referrals = [\<lparr>r_id = ''r1'', r_creatorId = ''u2'', r_affiliateId = ''u2'', r_code = ''REF1'',
        r_commission = Fin (1 / 4), r_signups = Fin 0, r_earnings = Fin 0, r_createdAt = 3\<rparr>],
     messages = [], tips = []\<rparr>"
  by (simp add: dbr1_def db2_eq referral_eval)

lemma dbr2_eq:
  "dbr2 = \<lparr>users = [ana, bo], posts = [], subscriptions = [], storeItems = [], orders = [],
     referrals = [\<lparr>r_id = ''r1'', r_creatorId = ''u2'', r_affiliateId = ''u2'', r_code = ''REF1'',
        r_commission = Fin (1 / 4), r_signups = Fin 0, r_earnings = Fin 0, r_createdAt = 3\<rparr>,
       \<lparr>r_id = ''r2'', r_creatorId = ''u1'', r_affiliateId = ''u1'', r_code = ''REF1'',
        r_commission = js_round (1 / 5), r_signups = Fin 0, r_earnings = Fin 0, r_createdAt = 4\<rparr>],
     messages = [], tips = []\<rparr>"
  by (simp add: dbr2_def dbr1_eq referral_eval)

lemma dbs_eq:
  "dbs = \<lparr>users = [ana, bo], posts = [], subscriptions = [], storeItems = [], orders = [],
     referrals = [\<lparr>r_id = ''r3'', r_creatorId = ''u2'', r_affiliateId = ''u2'', r_code = ''SUM'',
        r_commission = Fin 1, r_signups = Fin 0, r_earnings = Fin 0, r_createdAt = 3\<rparr>],
     messages = [], tips = []\<rparr>"
  by (simp add: dbs_def db2_eq referral_eval)

lemmas earn_eval = written_def api_referral_earn_def addReferralEarning_def
  api_referral_signup_def recordReferralSignup_def getReferralByCode_def Let_def
  js_round_numeral js_round_neg_numeral

lemma dbe1_eq:
  "dbe1 = \<lparr>users = [ana, bo], posts = [], subscriptions = [], storeItems = [], orders = [],
     referrals = [\<lparr>r_id = ''r1'', r_creatorId = ''u2'', r_affiliateId = ''u2'', r_code = ''REF1'',
        r_commission = Fin (1 / 4), r_signups = Fin 0, r_earnings = Fin 25, r_createdAt = 3\<rparr>],
     messages = [], tips = []\<rparr>"
  by (simp add: dbe1_def dbr1_eq earn_eval)

lemma dbe2_eq:
  "dbe2 = \<lparr>users = [ana, bo], posts = [], subscriptions = [], storeItems = [], orders = [],
     referrals = [\<lparr>r_id = ''r1'', r_creatorId = ''u2'', r_affiliateId = ''u2'', r_code = ''REF1'',
        r_commission = Fin (1 / 4), r_signups = Fin 0, r_earnings = Fin 15, r_createdAt = 3\<rparr>],
     messages = [], tips = []\<rparr>"
  by (simp add: dbe2_def dbe1_eq earn_eval)

lemma reachable_db5: "reachable db5"
  unfolding scenario_defs by (intro reachable.intros)

lemma reachable_db7: "reachable db7"
  unfolding scenario_defs by (intro reachable.intros)

lemma reachable_dbr1: "reachable dbr1"
  unfolding dbr1_def scenario_defs by (intro reachable.intros)

lemma reachable_dbr2: "reachable dbr2"
  unfolding dbr2_def dbr1_def scenario_defs by (intro reachable.intros)

lemma reachable_dbe2: "reachable dbe2"
  unfolding dbe2_def dbe1_def dbr1_def scenario_defs by (intro reachable.intros)

subsection \<open>What a request can write\<close>

text \<open>What a request can do to the subscriptions: nothing, or append an active one of the
  session's user to somebody else.\<close>

lemma subscriptions_step:
  "subscriptions (step st sess e req) = subscriptions st \<or>
   (\<exists>u cid plan. req_user st sess = Some u \<and> cid \<noteq> u_id u \<and>
      subscriptions (step st sess e req) = subscriptions st @
        [\<lparr>s_id = new_id e, s_subscriberId = u_id u, s_creatorId = cid,
          s_plan = plan, s_status = ''active'', s_createdAt = now e\<rparr>])"
  by (cases req)
     (auto simp: written_def api_defs model_defs Let_def
       split: option.splits if_splits jsval.splits prod.splits bool.splits)

lemma reachable_subscriptions:
  "reachable st \<Longrightarrow>
   \<forall>s \<in> set (subscriptions st). s_subscriberId s \<noteq> [] \<and> s_subscriberId s \<noteq> s_creatorId s"
proof (induction rule: reachable.induct)
  case init
  then show ?case by (simp add: empty_db_def)
next
  case (request st sess e req)
  from subscriptions_step[of st sess e req] show ?case
  proof
    assume "subscriptions (step st sess e req) = subscriptions st"
    with request.IH show ?thesis by simp
  next
    assume "\<exists>u cid plan. req_user st sess = Some u \<and> cid \<noteq> u_id u \<and>
      subscriptions (step st sess e req) = subscriptions st @
        [\<lparr>s_id = new_id e, s_subscriberId = u_id u, s_creatorId = cid,
          s_plan = plan, s_status = ''active'', s_createdAt = now e\<rparr>]"
    then obtain u cid plan where u: "req_user st sess = Some u" "cid \<noteq> u_id u"
      and eq: "subscriptions (step st sess e req) = subscriptions st @
        [\<lparr>s_id = new_id e, s_subscriberId = u_id u, s_creatorId = cid,
          s_plan = plan, s_status = ''active'', s_createdAt = now e\<rparr>]" by blast
    from req_user_Some[OF u(1)] have "u_id u \<noteq> []" by simp
    with request.IH u(2) show ?thesis unfolding eq by auto
  qed
qed

lemma storeItems_step:
  "storeItems (step st sess e req) = storeItems st \<or>
   (\<exists>item. storeItems (step st sess e req) = storeItems st @ [item])"
  by (cases req)
     (auto simp: written_def api_defs model_defs Let_def
       split: option.splits if_splits jsval.splits prod.splits bool.splits)

lemma findStoreItemById_step:
  "findStoreItemById st iid = Some item \<Longrightarrow> findStoreItemById (step st sess e req) iid = Some item"
  using storeItems_step[of st sess e req]
  by (auto simp: findStoreItemById_def find_append_Some)

text \<open>What a request can do to the orders: nothing, or append the order of an item that
  exists and is not the buyer's own.\<close>

lemma orders_step:
  "orders (step st sess e req) = orders st \<or>
   (\<exists>u item. req_user st sess = Some u \<and> findStoreItemById st (i_id item) = Some item \<and>
      i_creatorId item \<noteq> u_id u \<and>
      orders (step st sess e req) = orders st @
        [\<lparr>o_id = new_id e, o_itemId = i_id item, o_buyerId = u_id u,
          o_status = ''pending'', o_createdAt = now e\<rparr>])"
proof (cases req)
  case (CreateOrder itemId)
  show ?thesis
  proof (cases "api_order_create st sess e itemId")
    case (Inl a)
    then show ?thesis using CreateOrder by (simp add: written_def)
  next
    case (Inr b)
    then obtain u item where u: "req_user st sess = Some u"
      and item: "findStoreItemById st itemId = Some item" and ne: "i_creatorId item \<noteq> u_id u"
      and b: "b = createOrder st e (i_id item) (u_id u)"
      by (auto simp: api_order_create_def split: option.splits if_splits)
    from item have "i_id item = itemId"
      by (auto simp: findStoreItemById_def dest: find_Some_P)
    with item have "findStoreItemById st (i_id item) = Some item" by simp
    with u ne b Inr CreateOrder show ?thesis
      by (auto simp: written_def createOrder_def Let_def)
  qed
qed (auto simp: written_def api_defs model_defs Let_def
      split: option.splits if_splits jsval.splits prod.splits bool.splits)

lemma reachable_orders:
  "reachable st \<Longrightarrow>
   \<forall>ord \<in> set (orders st). \<exists>item. findStoreItemById st (o_itemId ord) = Some item \<and>
      i_creatorId item \<noteq> o_buyerId ord"
proof (induction rule: reachable.induct)
  case init
  then show ?case by (simp add: empty_db_def)
next
  case (request st sess e req)
  show ?case
  proof
    fix ord assume mem: "ord \<in> set (orders (step st sess e req))"
    from orders_step[of st sess e req]
    have "ord \<in> set (orders st) \<or>
          (\<exists>item. findStoreItemById st (o_itemId ord) = Some item \<and> i_creatorId item \<noteq> o_buyerId ord)"
      using mem by auto
    with request.IH obtain item where
      "findStoreItemById st (o_itemId ord) = Some item" "i_creatorId item \<noteq> o_buyerId ord"
      by blast
    then show "\<exists>item. findStoreItemById (step st sess e req) (o_itemId ord) = Some item \<and>
                 i_creatorId item \<noteq> o_buyerId ord"
      using findStoreItemById_step by blast
  qed
qed

text \<open>What a request can do to the referrals: nothing; append one without earnings; or
  replace the first referral of a code by a copy with one more signup or with the earning
  added.\<close>

lemma referrals_step_shape:
  "referrals (step st sess e req) = referrals st \<or>
   (\<exists>ref. referrals (step st sess e req) = referrals st @ [ref] \<and> r_earnings ref = Fin 0) \<or>
   (\<exists>code ref ref'. find (\<lambda>r. r_code r = code) (referrals st) = Some ref \<and>
      referrals (step st sess e req) =
        update_first (\<lambda>r. r_code r = code) (\<lambda>_. ref') (referrals st) \<and>
      r_code ref' = r_code ref \<and> r_commission ref' = r_commission ref \<and>
      (r_earnings ref' = r_earnings ref \<or>
       (\<exists>a. req = ReferralEarn code (JNum a) \<and>
            r_earnings ref' = js_add (r_earnings ref) (js_mul a (r_commission ref)))))"
proof (cases req)
  case (ReferralSignup code)
  show ?thesis
  proof (cases "find (\<lambda>r. r_code r = code) (referrals st)")
    case None
    with ReferralSignup show ?thesis
      by (simp add: written_def api_referral_signup_def recordReferralSignup_def)
  next
    case (Some ref)
    with ReferralSignup have "referrals (step st sess e req) =
        update_first (\<lambda>r. r_code r = code)
          (\<lambda>_. ref\<lparr>r_signups := js_add (r_signups ref) (Fin 1)\<rparr>) (referrals st)"
      by (simp add: written_def api_referral_signup_def recordReferralSignup_def Let_def)
    with Some show ?thesis
      by (intro disjI2 exI[of _ code] exI[of _ ref]
          exI[of _ "ref\<lparr>r_signups := js_add (r_signups ref) (Fin 1)\<rparr>"]) simp
  qed
next
  case (ReferralEarn code amount)
  show ?thesis
  proof (cases "\<exists>a ref. amount = JNum a \<and> find (\<lambda>r. r_code r = code) (referrals st) = Some ref")
    case False
    with ReferralEarn show ?thesis
      by (cases amount)
         (auto simp: written_def api_referral_earn_def addReferralEarning_def
           split: option.splits)
  next
    case True
    then obtain a ref where a: "amount = JNum a"
      and ref: "find (\<lambda>r. r_code r = code) (referrals st) = Some ref" by blast
    with ReferralEarn have "referrals (step st sess e req) =
        update_first (\<lambda>r. r_code r = code)
          (\<lambda>_. ref\<lparr>r_earnings := js_add (r_earnings ref) (js_mul a (r_commission ref))\<rparr>)
          (referrals st)"
      by (simp add: written_def api_referral_earn_def addReferralEarning_def Let_def)
    with ref a ReferralEarn show ?thesis
      by (intro disjI2 exI[of _ code] exI[of _ ref]
          exI[of _ "ref\<lparr>r_earnings := js_add (r_earnings ref) (js_mul a (r_commission ref))\<rparr>"])
         simp
  qed
next
  case (CreateReferral creatorId code commission)
  then show ?thesis
    by (auto simp: written_def api_referral_create_def createReferral_def Let_def
        split: option.splits)
qed (auto simp: written_def api_defs model_defs Let_def
      split: option.splits if_splits jsval.splits prod.splits bool.splits)

lemma referrals_step_nth:
  assumes "i < length (referrals st)"
  shows "i < length (referrals (step st sess e req)) \<and>
     r_code (referrals (step st sess e req) ! i) = r_code (referrals st ! i) \<and>
     r_commission (referrals (step st sess e req) ! i) = r_commission (referrals st ! i) \<and>
     (r_earnings (referrals (step st sess e req) ! i) = r_earnings (referrals st ! i) \<or>
      (\<exists>code a. req = ReferralEarn code (JNum a) \<and>
         getReferralByCode st code = Some (referrals st ! i) \<and>
         r_earnings (referrals (step st sess e req) ! i) =
           js_add (r_earnings (referrals st ! i)) (js_mul a (r_commission (referrals st ! i)))))"
proof -
  from referrals_step_shape[of st sess e req]
  consider
      (same) "referrals (step st sess e req) = referrals st"
    | (new) ref where "referrals (step st sess e req) = referrals st @ [ref]"
    | (upd) code ref ref' where "find (\<lambda>r. r_code r = code) (referrals st) = Some ref"
        "referrals (step st sess e req) =
           update_first (\<lambda>r. r_code r = code) (\<lambda>_. ref') (referrals st)"
        "r_code ref' = r_code ref" "r_commission ref' = r_commission ref"
        "r_earnings ref' = r_earnings ref \<or>
         (\<exists>a. req = ReferralEarn code (JNum a) \<and>
            r_earnings ref' = js_add (r_earnings ref) (js_mul a (r_commission ref)))"
    by blast
  then show ?thesis
  proof cases
    case same
    with assms show ?thesis by simp
  next
    case new
    with assms show ?thesis by (simp add: nth_append)
  next
    case upd
    from update_first_nth[OF assms, of "\<lambda>r. r_code r = code" "\<lambda>_. ref'"]
    show ?thesis
    proof
      assume "update_first (\<lambda>r. r_code r = code) (\<lambda>_. ref') (referrals st) ! i = referrals st ! i"
      with upd(2) assms show ?thesis by simp
    next
      assume a: "find (\<lambda>r. r_code r = code) (referrals st) = Some (referrals st ! i) \<and>
        update_first (\<lambda>r. r_code r = code) (\<lambda>_. ref') (referrals st) ! i = ref'"
      with upd(1) have ref: "ref = referrals st ! i" by simp
      from a upd(2) have new: "referrals (step st sess e req) ! i = ref'" by simp
      from a have get: "getReferralByCode st code = Some (referrals st ! i)"
        by (simp add: getReferralByCode_def)
      from upd(3,4,5) assms upd(2) get show ?thesis
        unfolding new ref by auto
    qed
  qed
qed

lemma reachable_earnings_double:
  "reachable st \<Longrightarrow> \<forall>r \<in> set (referrals st). is_double (r_earnings r)"
proof (induction rule: reachable.induct)
  case init
  then show ?case by (simp add: empty_db_def)
next
  case (request st sess e req)
  from referrals_step_shape[of st sess e req]
  consider
      (same) "referrals (step st sess e req) = referrals st"
    | (new) ref where "referrals (step st sess e req) = referrals st @ [ref]" "r_earnings ref = Fin 0"
    | (upd) code ref ref' where "find (\<lambda>r. r_code r = code) (referrals st) = Some ref"
        "referrals (step st sess e req) =
           update_first (\<lambda>r. r_code r = code) (\<lambda>_. ref') (referrals st)"
        "r_earnings ref' = r_earnings ref \<or>
         (\<exists>a. req = ReferralEarn code (JNum a) \<and>
            r_earnings ref' = js_add (r_earnings ref) (js_mul a (r_commission ref)))"
    by blast
  then show ?case
  proof cases
    case same
    with request.IH show ?thesis by simp
  next
    case new
    with request.IH show ?thesis by auto
  next
    case upd
    from upd(1) have "ref \<in> set (referrals st)" by (auto simp: find_Some_iff)
    with request.IH have "is_double (r_earnings ref)" by blast
    with upd(3) have "is_double (r_earnings ref')" by auto
    with request.IH set_update_first[of "\<lambda>r. r_code r = code" "\<lambda>_. ref'" "referrals st"]
    show ?thesis unfolding upd(2) by auto
  qed
qed

subsection \<open>Listing a creator's posts\<close>

lemma listPosts_filter:
  assumes "\<forall>s \<in> set (subscriptions st). s_subscriberId s \<noteq> []"
  shows "listPosts st c r =
     filter (\<lambda>p. p_creatorId p = c \<and>
                 (\<not> p_subscriberOnly p \<or>
                  (\<exists>s \<in> set (subscriptions st).
                     Some (s_subscriberId s) = r \<and> s_creatorId s = c \<and> s_status s = ''active'')))
       (posts st)"
proof -
  have "str_truthy r" if "s \<in> set (subscriptions st)" "Some (s_subscriberId s) = r" for s
    using that assms by (cases r) auto
  then show ?thesis
    unfolding listPosts_def by (intro filter_cong refl) (auto simp: list_ex_iff)
qed

text \<open>
  C1. In every state the server reaches, for every creator \<open>c\<close> and requester \<open>r\<close> (a user
  id, or \<open>None\<close> for an anonymous request), \<open>listPosts\<close> returns, in their order, exactly
  the posts of \<open>c\<close> that are public or for which some subscription has subscriber \<open>r\<close>,
  creator \<open>c\<close> and status \<open>active\<close>; an anonymous request gets no subscriber-only post.
\<close>

theorem listPosts_gating:
  assumes "reachable st"
  shows "listPosts st c r =
     filter (\<lambda>p. p_creatorId p = c \<and>
                 (\<not> p_subscriberOnly p \<or>
                  (\<exists>s \<in> set (subscriptions st).
                     Some (s_subscriberId s) = r \<and> s_creatorId s = c \<and> s_status s = ''active'')))
       (posts st) \<and>
     (r = None \<longrightarrow> (\<forall>p \<in> set (listPosts st c r). \<not> p_subscriberOnly p))"
proof -
  from reachable_subscriptions[OF assms]
  have ne: "\<forall>s \<in> set (subscriptions st). s_subscriberId s \<noteq> []" by blast
  have "\<forall>p \<in> set (listPosts st c None). \<not> p_subscriberOnly p"
    by (auto simp: listPosts_def)
  with listPosts_filter[OF ne] show ?thesis by blast
qed

text \<open>The scenario: after the subscription bo gets both of ana's posts, before it only the
  public one, and so does an anonymous request afterwards.\<close>

theorem listPosts_gating_witness:
  "reachable db5 \<and>
   map p_id (filter (\<lambda>p. p_creatorId p = ''u1'' \<and>
                 (\<not> p_subscriberOnly p \<or>
                  (\<exists>s \<in> set (subscriptions db5).
                     Some (s_subscriberId s) = Some ''u2'' \<and> s_creatorId s = ''u1'' \<and>
                     s_status s = ''active''))) (posts db5)) = [''p1'', ''p2''] \<and>
   map p_id (listPosts db5 ''u1'' (Some ''u2'')) = [''p1'', ''p2''] \<and>
   map p_id (listPosts db4 ''u1'' (Some ''u2'')) = [''p1''] \<and>
   map p_id (listPosts db5 ''u1'' None) = [''p1'']"
proof -
  have a: "map p_id (listPosts db5 ''u1'' (Some ''u2'')) = [''p1'', ''p2'']"
    by (simp add: db5_eq listPosts_def record_eval)
  have b: "map p_id (listPosts db4 ''u1'' (Some ''u2'')) = [''p1'']"
    by (simp add: db4_eq listPosts_def record_eval)
  have c: "map p_id (listPosts db5 ''u1'' None) = [''p1'']"
    by (simp add: db5_eq listPosts_def record_eval)
  from listPosts_gating[OF reachable_db5, of "''u1''" "Some ''u2''"] a
  have "map p_id (filter (\<lambda>p. p_creatorId p = ''u1'' \<and>
                 (\<not> p_subscriberOnly p \<or>
                  (\<exists>s \<in> set (subscriptions db5).
                     Some (s_subscriberId s) = Some ''u2'' \<and> s_creatorId s = ''u1'' \<and>
                     s_status s = ''active''))) (posts db5)) = [''p1'', ''p2'']"
    by simp
  with a b c reachable_db5 show ?thesis by blast
qed

subsection \<open>Referral codes\<close>

text \<open>
  C2, as stated, fails: with the code REF1 in use, creating REF1 again succeeds, and the
  state reached holds two referrals with the same code.
\<close>

theorem createReferral_conflict_counterexample:
  "getReferralByCode dbr1 ''REF1'' =
     Some \<lparr>r_id = ''r1'', r_creatorId = ''u2'', r_affiliateId = ''u2'', r_code = ''REF1'',
            r_commission = Fin (1 / 4), r_signups = Fin 0, r_earnings = Fin 0, r_createdAt = 3\<rparr> \<and>
   api_referral_create dbr1 (Some ''u1'') (env_at ''r2'' 4) None (Some ''REF1'') None =
     Inr (\<lparr>r_id = ''r2'', r_creatorId = ''u1'', r_affiliateId = ''u1'', r_code = ''REF1'',
           r_commission = Fin (3602879701896397 / 18014398509481984), r_signups = Fin 0,
           r_earnings = Fin 0, r_createdAt = 4\<rparr>, dbr2) \<and>
   reachable dbr2 \<and>
   map r_code (referrals dbr2) = [''REF1'', ''REF1'']"
proof -
  have a: "getReferralByCode dbr1 ''REF1'' =
     Some \<lparr>r_id = ''r1'', r_creatorId = ''u2'', r_affiliateId = ''u2'', r_code = ''REF1'',
            r_commission = Fin (1 / 4), r_signups = Fin 0, r_earnings = Fin 0, r_createdAt = 3\<rparr>"
    by (simp add: dbr1_eq getReferralByCode_def)
  have b: "api_referral_create dbr1 (Some ''u1'') (env_at ''r2'' 4) None (Some ''REF1'') None =
     Inr (\<lparr>r_id = ''r2'', r_creatorId = ''u1'', r_affiliateId = ''u1'', r_code = ''REF1'',
           r_commission = Fin (3602879701896397 / 18014398509481984), r_signups = Fin 0,
           r_earnings = Fin 0, r_createdAt = 4\<rparr>, dbr2)"
    unfolding dbr2_eq by (simp add: dbr1_eq referral_eval js_round_fifth)
  have c: "map r_code (referrals dbr2) = [''REF1'', ''REF1'']" by (simp add: dbr2_eq)
  from a b c reachable_dbr2 show ?thesis by blast
qed

text \<open>
  C2, amended. Creating a referral code (\<open>POST /api/referral\<close>) never answers Conflict.
  For an authenticated user and a non-empty code it appends a new referral with that code,
  no signups and no earnings, and answers with it, also when a referral with the same code
  exists; the codes of the referrals are then not distinct, and the code still resolves
  (\<open>getReferralByCode\<close>) to the referral created first.
\<close>

theorem createReferral_never_conflicts:
  "api_referral_create st sess e creatorId code commission \<noteq> Inl (Conflict msg) \<and>
   (req_user st sess = Some u \<and> code = Some c \<and> c \<noteq> [] \<longrightarrow>
      (let ref = \<lparr>r_id = new_id e, r_creatorId = dflt (u_id u) creatorId, r_affiliateId = u_id u,
                  r_code = c, r_commission = num_or commission (js_round (1 / 5)),
                  r_signups = Fin 0, r_earnings = Fin 0, r_createdAt = now e\<rparr>;
           st' = st\<lparr>referrals := referrals st @ [ref]\<rparr>
       in api_referral_create st sess e creatorId code commission = Inr (ref, st') \<and>
          (\<forall>r0. getReferralByCode st c = Some r0 \<longrightarrow>
             getReferralByCode st' c = Some r0 \<and> \<not> distinct (map r_code (referrals st')))))"
proof -
  have 1: "api_referral_create st sess e creatorId code commission \<noteq> Inl (Conflict msg)"
    by (auto simp: api_referral_create_def split: option.splits)
  have 2: "r_code r0 = c \<and> r0 \<in> set (referrals st)" if "getReferralByCode st c = Some r0" for r0
    using that by (auto simp: getReferralByCode_def find_Some_iff)
  show ?thesis
    using 1 2
    by (auto simp: api_referral_create_def createReferral_def Let_def getReferralByCode_def
        find_append_Some)
qed

theorem createReferral_never_conflicts_witness:
  "req_user dbr1 (Some ''u1'') = Some ana \<and>
   api_referral_create dbr1 (Some ''u1'') (env_at ''r2'' 4) None (Some ''REF1'') None \<noteq>
     Inl (Conflict ''Referral code already exists'') \<and>
   api_referral_create dbr1 (Some ''u1'') (env_at ''r2'' 4) None (Some ''REF1'') None =
     Inr (\<lparr>r_id = ''r2'', r_creatorId = ''u1'', r_affiliateId = ''u1'', r_code = ''REF1'',
           r_commission = js_round (1 / 5), r_signups = Fin 0, r_earnings = Fin 0,
           r_createdAt = 4\<rparr>, dbr2) \<and>
   map_option r_id (getReferralByCode dbr1 ''REF1'') = Some ''r1'' \<and>
   map_option r_id (getReferralByCode dbr2 ''REF1'') = Some ''r1'' \<and>
   \<not> distinct (map r_code (referrals dbr2))"
proof -
  let ?ref = "\<lparr>r_id = ''r2'', r_creatorId = ''u1'', r_affiliateId = ''u1'', r_code = ''REF1'',
           r_commission = js_round (1 / 5), r_signups = Fin 0, r_earnings = Fin 0,
           r_createdAt = 4\<rparr>"
  have u: "req_user dbr1 (Some ''u1'') = Some ana" by (simp add: dbr1_eq referral_eval)
  have g1: "map_option r_id (getReferralByCode dbr1 ''REF1'') = Some ''r1''"
    by (simp add: dbr1_eq getReferralByCode_def)
  have st': "dbr1\<lparr>referrals := referrals dbr1 @ [?ref]\<rparr> = dbr2"
    by (simp add: dbr1_eq dbr2_eq)
  note T = createReferral_never_conflicts[of dbr1 "Some ''u1''" "env_at ''r2'' 4" None
      "Some ''REF1''" None "''Referral code already exists''" ana "''REF1''"]
  from T have a: "api_referral_create dbr1 (Some ''u1'') (env_at ''r2'' 4) None (Some ''REF1'') None \<noteq>
     Inl (Conflict ''Referral code already exists'')" by blast
  have inst: "api_referral_create dbr1 (Some ''u1'') (env_at ''r2'' 4) None (Some ''REF1'') None =
       Inr (?ref, dbr1\<lparr>referrals := referrals dbr1 @ [?ref]\<rparr>) \<and>
     (\<forall>r0. getReferralByCode dbr1 ''REF1'' = Some r0 \<longrightarrow>
        getReferralByCode (dbr1\<lparr>referrals := referrals dbr1 @ [?ref]\<rparr>) ''REF1'' = Some r0 \<and>
        \<not> distinct (map r_code (referrals (dbr1\<lparr>referrals := referrals dbr1 @ [?ref]\<rparr>))))"
    using T u by (simp add: Let_def ana_def env_at_def dflt_def num_or_def)
  from g1 obtain r0 where r0: "getReferralByCode dbr1 ''REF1'' = Some r0" "r_id r0 = ''r1''"
    by auto
  from inst[unfolded st'] r0 have
    "api_referral_create dbr1 (Some ''u1'') (env_at ''r2'' 4) None (Some ''REF1'') None = Inr (?ref, dbr2)"
    "getReferralByCode dbr2 ''REF1'' = Some r0" "\<not> distinct (map r_code (referrals dbr2))"
    by blast+
  with u a g1 r0 show ?thesis by simp
qed

subsection \<open>Referral earnings: what a call adds\<close>

lemma api_referral_earn_known:
  assumes "getReferralByCode st code = Some r"
  shows "api_referral_earn st code (JNum a) =
     Inr (r\<lparr>r_earnings := js_add (r_earnings r) (js_mul a (r_commission r))\<rparr>,
          st\<lparr>referrals := update_first (\<lambda>x. r_code x = code)
                (\<lambda>_. r\<lparr>r_earnings := js_add (r_earnings r) (js_mul a (r_commission r))\<rparr>)
                (referrals st)\<rparr>)"
  using assms
  by (simp add: api_referral_earn_def addReferralEarning_def getReferralByCode_def Let_def)

lemma api_referral_earn_unknown:
  assumes "getReferralByCode st code = None"
  shows "api_referral_earn st code (JNum a) = Inl (NotFound ''Referral code not found'')"
  using assms
  by (simp add: api_referral_earn_def addReferralEarning_def getReferralByCode_def)

lemma earn_call_lookup:
  assumes "getReferralByCode st code = Some r"
  shows "getReferralByCode (written st (api_referral_earn st code (JNum a))) code =
     Some (r\<lparr>r_earnings := js_add (r_earnings r) (js_mul a (r_commission r))\<rparr>)"
proof -
  from assms have code: "r_code r = code"
    by (auto simp: getReferralByCode_def dest: find_Some_P)
  from assms have "find (\<lambda>x. r_code x = code) (referrals st) = Some r"
    by (simp add: getReferralByCode_def)
  from find_update_first[OF this,
      of "\<lambda>_. r\<lparr>r_earnings := js_add (r_earnings r) (js_mul a (r_commission r))\<rparr>"] code
  show ?thesis
    unfolding api_referral_earn_known[OF assms] by (simp add: written_def getReferralByCode_def)
qed

lemma earn_calls_lookup:
  "getReferralByCode st code = Some r \<Longrightarrow>
   getReferralByCode (earn_calls st code as) code =
     Some (r\<lparr>r_earnings := foldl (\<lambda>e a. js_add e (js_mul a (r_commission r))) (r_earnings r) as\<rparr>)"
proof (induction as arbitrary: st r)
  case Nil
  then show ?case by simp
next
  case (Cons a as)
  from Cons.IH[OF earn_call_lookup[OF Cons.prems, of a]] show ?case by simp
qed

lemma exact_sums_foldl:
  "exact_sums m e qs \<Longrightarrow>
   foldl (\<lambda>e a. js_add e (js_mul a (Fin m))) (Fin e) (map Fin qs) = Fin (e + (\<Sum>q\<leftarrow>qs. q * m))"
  by (induction qs arbitrary: e) (simp_all add: add.assoc)

text \<open>
  C3, as stated, fails. On a code with commission 1 the amounts 0.1, 0.2 and 0.3 give the
  earnings 0.6000000000000001, the same amounts in the opposite order give 0.6, and the
  exact sum of the three doubles is neither.
\<close>

theorem recordEarning_sum_counterexample:
  "map_option r_commission (getReferralByCode dbs ''SUM'') = Some (Fin 1) \<and>
   map_option r_earnings (getReferralByCode
       (earn_calls dbs ''SUM'' [js_round (1 / 10), js_round (2 / 10), js_round (3 / 10)]) ''SUM'') =
     Some (Fin (1351079888211149 / 2251799813685248)) \<and>
   map_option r_earnings (getReferralByCode
       (earn_calls dbs ''SUM'' [js_round (3 / 10), js_round (2 / 10), js_round (1 / 10)]) ''SUM'') =
     Some (Fin (5404319552844595 / 9007199254740992)) \<and>
   (1351079888211149 / 2251799813685248 :: rat) \<noteq> 5404319552844595 / 9007199254740992 \<and>
   (3602879701896397 / 36028797018963968 + 3602879701896397 / 18014398509481984 +
      5404319552844595 / 18014398509481984 :: rat) = 21617278211378381 / 36028797018963968 \<and>
   (21617278211378381 / 36028797018963968 :: rat) \<noteq> 1351079888211149 / 2251799813685248 \<and>
   (21617278211378381 / 36028797018963968 :: rat) \<noteq> 5404319552844595 / 9007199254740992"
proof -
  let ?r = "\<lparr>r_id = ''r3'', r_creatorId = ''u2'', r_affiliateId = ''u2'', r_code = ''SUM'',
        r_commission = Fin 1, r_signups = Fin 0, r_earnings = Fin 0, r_createdAt = 3\<rparr>"
  have g: "getReferralByCode dbs ''SUM'' = Some ?r"
    by (simp add: dbs_eq getReferralByCode_def)
  have up: "map_option r_earnings (getReferralByCode
       (earn_calls dbs ''SUM'' [js_round (1 / 10), js_round (2 / 10), js_round (3 / 10)]) ''SUM'') =
     Some (Fin (1351079888211149 / 2251799813685248))"
    unfolding earn_calls_lookup[OF g] js_round_tenths using sum_up by simp
  have down: "map_option r_earnings (getReferralByCode
       (earn_calls dbs ''SUM'' [js_round (3 / 10), js_round (2 / 10), js_round (1 / 10)]) ''SUM'') =
     Some (Fin (5404319552844595 / 9007199254740992))"
    unfolding earn_calls_lookup[OF g] js_round_tenths using sum_down by simp
  from g up down show ?thesis by simp
qed

text \<open>
  C3, amended. A call with a known code and a numeric amount adds amount times commission,
  in double arithmetic, to the earnings of the referral created first with that code,
  leaves everything else, and answers with the updated record; an unknown code is answered
  NotFound. After calls with the amounts \<open>a1, a2, ...\<close> the earnings are the sum taken from
  left to right in double arithmetic, every product and every partial sum rounded to the
  nearest double. When all those products and partial sums are doubles as they stand, the
  earnings are the exact sum of the \<open>ai\<close> times \<open>m\<close>, whatever the order of the calls.
\<close>

theorem recordEarning_accumulates:
  "(getReferralByCode st code = None \<longrightarrow>
      api_referral_earn st code (JNum a) = Inl (NotFound ''Referral code not found'')) \<and>
   (\<forall>r. getReferralByCode st code = Some r \<longrightarrow>
      api_referral_earn st code (JNum a) =
        Inr (r\<lparr>r_earnings := js_add (r_earnings r) (js_mul a (r_commission r))\<rparr>,
             st\<lparr>referrals := update_first (\<lambda>x. r_code x = code)
                   (\<lambda>_. r\<lparr>r_earnings := js_add (r_earnings r) (js_mul a (r_commission r))\<rparr>)
                   (referrals st)\<rparr>) \<and>
      getReferralByCode (earn_calls st code as) code =
        Some (r\<lparr>r_earnings :=
                 foldl (\<lambda>e a. js_add e (js_mul a (r_commission r))) (r_earnings r) as\<rparr>) \<and>
      (\<forall>m e qs. r_commission r = Fin m \<and> r_earnings r = Fin e \<and> exact_sums m e qs \<longrightarrow>
         map_option r_earnings (getReferralByCode (earn_calls st code (map Fin qs)) code) =
           Some (Fin (e + (\<Sum>q\<leftarrow>qs. q * m)))))"
proof (intro conjI impI allI)
  assume "getReferralByCode st code = None"
  then show "api_referral_earn st code (JNum a) = Inl (NotFound ''Referral code not found'')"
    by (rule api_referral_earn_unknown)
next
  fix r assume r: "getReferralByCode st code = Some r"
  show "api_referral_earn st code (JNum a) =
        Inr (r\<lparr>r_earnings := js_add (r_earnings r) (js_mul a (r_commission r))\<rparr>,
             st\<lparr>referrals := update_first (\<lambda>x. r_code x = code)
                   (\<lambda>_. r\<lparr>r_earnings := js_add (r_earnings r) (js_mul a (r_commission r))\<rparr>)
                   (referrals st)\<rparr>)"
    by (rule api_referral_earn_known[OF r])
  show "getReferralByCode (earn_calls st code as) code =
        Some (r\<lparr>r_earnings :=
                 foldl (\<lambda>e a. js_add e (js_mul a (r_commission r))) (r_earnings r) as\<rparr>)"
    by (rule earn_calls_lookup[OF r])
  fix m e qs assume "r_commission r = Fin m \<and> r_earnings r = Fin e \<and> exact_sums m e qs"
  then show "map_option r_earnings (getReferralByCode (earn_calls st code (map Fin qs)) code) =
           Some (Fin (e + (\<Sum>q\<leftarrow>qs. q * m)))"
    unfolding earn_calls_lookup[OF r] using exact_sums_foldl[of m e qs] by simp
qed

text \<open>The example of the specification: commission 0.25, then 100 and 40 earn 25 + 10 = 35;
  a code nobody created is not found.\<close>

theorem recordEarning_accumulates_witness:
  "map_option r_id (getReferralByCode dbr1 ''REF1'') = Some ''r1'' \<and>
   exact_sums (1 / 4) 0 [100, 40] \<and>
   map_option r_earnings (getReferralByCode (earn_calls dbr1 ''REF1'' [Fin 100, Fin 40]) ''REF1'') =
     Some (Fin 35) \<and>
   map_sum id (\<lambda>x. r_earnings (fst x)) (api_referral_earn dbr1 ''REF1'' (JNum (Fin 100))) =
     Inr (Fin 25) \<and>
   getReferralByCode dbr1 ''NOPE'' = None \<and>
   api_referral_earn dbr1 ''NOPE'' (JNum (Fin 100)) = Inl (NotFound ''Referral code not found'')"
proof -
  let ?r = "\<lparr>r_id = ''r1'', r_creatorId = ''u2'', r_affiliateId = ''u2'', r_code = ''REF1'',
        r_commission = Fin (1 / 4), r_signups = Fin 0, r_earnings = Fin 0, r_createdAt = 3\<rparr>"
  have g: "getReferralByCode dbr1 ''REF1'' = Some ?r"
    by (simp add: dbr1_eq getReferralByCode_def)
  have n: "getReferralByCode dbr1 ''NOPE'' = None"
    by (simp add: dbr1_eq getReferralByCode_def)
  have x: "exact_sums (1 / 4) 0 [100, 40]"
    by (simp add: js_round_numeral)
  note T = recordEarning_accumulates[of dbr1 "''REF1''" "Fin 100" "[Fin 100, Fin 40]"]
  note N = recordEarning_accumulates[of dbr1 "''NOPE''" "Fin 100" "[]"]
  note I = T[THEN conjunct2, rule_format, OF g]
  have pre: "r_commission ?r = Fin (1 / 4) \<and> r_earnings ?r = Fin 0 \<and> exact_sums (1 / 4) 0 [100, 40]"
    using x by simp
  note E = I[THEN conjunct2, THEN conjunct2, rule_format, OF pre]
  have s: "map_option r_earnings
      (getReferralByCode (earn_calls dbr1 ''REF1'' [Fin 100, Fin 40]) ''REF1'') = Some (Fin 35)"
    using E by simp
  have c: "map_sum id (\<lambda>x. r_earnings (fst x)) (api_referral_earn dbr1 ''REF1'' (JNum (Fin 100))) =
     Inr (Fin 25)"
    unfolding I[THEN conjunct1] by (simp add: js_round_numeral)
  have u: "api_referral_earn dbr1 ''NOPE'' (JNum (Fin 100)) =
      Inl (NotFound ''Referral code not found'')"
    by (rule N[THEN conjunct1, rule_format, OF n])
  have i: "map_option r_id (getReferralByCode dbr1 ''REF1'') = Some ''r1''"
    unfolding g by simp
  show ?thesis
    by (intro conjI i x s c n u)
qed

subsection \<open>Referral earnings: when they can fall\<close>

lemma step_not_decreased:
  assumes "reachable st" "nonneg_earn st req" "i < length (referrals st)"
  shows "i < length (referrals (step st sess e req)) \<and>
     r_code (referrals (step st sess e req) ! i) = r_code (referrals st ! i) \<and>
     (r_earnings (referrals (step st sess e req) ! i) = r_earnings (referrals st ! i) \<or>
      r_earnings (referrals (step st sess e req) ! i) = NaN \<or>
      js_le (r_earnings (referrals st ! i)) (r_earnings (referrals (step st sess e req) ! i)))"
proof -
  from reachable_earnings_double[OF assms(1)] assms(3)
  have d: "is_double (r_earnings (referrals st ! i))" by simp
  note N = referrals_step_nth[OF assms(3), of sess e req]
  from N consider
      "r_earnings (referrals (step st sess e req) ! i) = r_earnings (referrals st ! i)"
    | code a where "req = ReferralEarn code (JNum a)"
        "getReferralByCode st code = Some (referrals st ! i)"
        "r_earnings (referrals (step st sess e req) ! i) =
           js_add (r_earnings (referrals st ! i)) (js_mul a (r_commission (referrals st ! i)))"
    by blast
  then show ?thesis
  proof cases
    case 1
    with N show ?thesis by simp
  next
    case 2
    with assms(2) have "js_le (Fin 0) (js_mul a (r_commission (referrals st ! i)))"
      by (simp add: nonneg_earn_def)
    from js_add_nonneg[OF d this] 2(3) N show ?thesis by auto
  qed
qed

lemma run_not_decreased:
  "reachable st \<Longrightarrow> nonneg_run st reqs \<Longrightarrow> i < length (referrals st) \<Longrightarrow>
   i < length (referrals (run st reqs)) \<and>
   r_code (referrals (run st reqs) ! i) = r_code (referrals st ! i) \<and>
   (r_earnings (referrals (run st reqs) ! i) = r_earnings (referrals st ! i) \<or>
    r_earnings (referrals (run st reqs) ! i) = NaN \<or>
    js_le (r_earnings (referrals st ! i)) (r_earnings (referrals (run st reqs) ! i)))"
proof (induction reqs arbitrary: st)
  case Nil
  then show ?case by simp
next
  case (Cons x reqs)
  obtain sess e req where x: "x = (sess, e, req)" by (cases x)
  from Cons.prems x have ok: "nonneg_earn st req" and rest: "nonneg_run (step st sess e req) reqs"
    by simp_all
  note S = step_not_decreased[OF Cons.prems(1) ok Cons.prems(3), of sess e]
  have reach: "reachable (step st sess e req)" by (rule reachable.request[OF Cons.prems(1)])
  from S have i: "i < length (referrals (step st sess e req))" by simp
  note R = Cons.IH[OF reach rest i]
  let ?a = "r_earnings (referrals st ! i)"
  let ?b = "r_earnings (referrals (step st sess e req) ! i)"
  let ?c = "r_earnings (referrals (run (step st sess e req) reqs) ! i)"
  from S have ab: "?b = ?a \<or> ?b = NaN \<or> js_le ?a ?b" by simp
  from R have bc: "?c = ?b \<or> ?c = NaN \<or> js_le ?b ?c" by simp
  have "?c = ?a \<or> ?c = NaN \<or> js_le ?a ?c"
    using ab bc js_le_trans[of ?a ?b ?c] by (cases ?b) auto
  with S R x show ?case by simp
qed

text \<open>
  C4, as stated, fails: the amount \<open>-40\<close> is a number, the call is accepted, and the
  earnings of REF1 go from 25 down to 15.
\<close>

theorem earnings_decrease_counterexample:
  "reachable dbe2 \<and> is_double (Fin (- 40)) \<and>
   map r_earnings (referrals dbe1) = [Fin 25] \<and>
   api_referral_earn dbe1 ''REF1'' (JNum (Fin (- 40))) =
     Inr (\<lparr>r_id = ''r1'', r_creatorId = ''u2'', r_affiliateId = ''u2'', r_code = ''REF1'',
           r_commission = Fin (1 / 4), r_signups = Fin 0, r_earnings = Fin 15, r_createdAt = 3\<rparr>,
          dbe2) \<and>
   map r_earnings (referrals dbe2) = [Fin 15] \<and>
   js_lt (Fin 15) (Fin 25)"
proof -
  have a: "map r_earnings (referrals dbe1) = [Fin 25]" by (simp add: dbe1_eq)
  have b: "api_referral_earn dbe1 ''REF1'' (JNum (Fin (- 40))) =
     Inr (\<lparr>r_id = ''r1'', r_creatorId = ''u2'', r_affiliateId = ''u2'', r_code = ''REF1'',
           r_commission = Fin (1 / 4), r_signups = Fin 0, r_earnings = Fin 15, r_createdAt = 3\<rparr>,
          dbe2)"
    unfolding dbe2_eq by (simp add: dbe1_eq earn_eval)
  have c: "map r_earnings (referrals dbe2) = [Fin 15]" by (simp add: dbe2_eq)
  have d: "js_lt (Fin 15) (Fin 25)" by simp
  have n: "is_double (Fin (- 40))" by (simp add: is_double_def js_round_neg_numeral)
  from reachable_dbe2 a b c d n show ?thesis by blast
qed

text \<open>
  C4, amended. The earnings of a referral change only through an earning call: every
  other operation leaves the earnings of every referral as they are. An earning call whose
  amount times commission is a number that is at least zero never makes the earnings
  smaller. So across every sequence of operations in which each earning call adds such a
  product, the earnings of a referral are never smaller than they were.
\<close>

theorem earnings_never_decrease:
  "(reachable st \<and> nonneg_run st reqs \<and> i < length (referrals st) \<longrightarrow>
      i < length (referrals (run st reqs)) \<and>
      r_code (referrals (run st reqs) ! i) = r_code (referrals st ! i) \<and>
      \<not> js_lt (r_earnings (referrals (run st reqs) ! i)) (r_earnings (referrals st ! i))) \<and>
   ((\<forall>code amount. req \<noteq> ReferralEarn code amount) \<and> i < length (referrals st) \<longrightarrow>
      r_earnings (referrals (step st sess e req) ! i) = r_earnings (referrals st ! i))"
proof (intro conjI impI)
  assume a: "reachable st \<and> nonneg_run st reqs \<and> i < length (referrals st)"
  then have R: "i < length (referrals (run st reqs)) \<and>
   r_code (referrals (run st reqs) ! i) = r_code (referrals st ! i) \<and>
   (r_earnings (referrals (run st reqs) ! i) = r_earnings (referrals st ! i) \<or>
    r_earnings (referrals (run st reqs) ! i) = NaN \<or>
    js_le (r_earnings (referrals st ! i)) (r_earnings (referrals (run st reqs) ! i)))"
    using run_not_decreased[of st reqs i] by blast
  then show "i < length (referrals (run st reqs))"
    and "r_code (referrals (run st reqs) ! i) = r_code (referrals st ! i)" by simp_all
  have irrefl: "\<not> js_lt x x" for x by (cases x) simp_all
  from R show "\<not> js_lt (r_earnings (referrals (run st reqs) ! i)) (r_earnings (referrals st ! i))"
    using js_le_not_lt irrefl by auto
next
  assume "(\<forall>code amount. req \<noteq> ReferralEarn code amount) \<and> i < length (referrals st)"
  then show "r_earnings (referrals (step st sess e req) ! i) = r_earnings (referrals st ! i)"
    using referrals_step_nth[of i st sess e req] by auto
qed

text \<open>The example of the specification again: 100 and 40 at commission 0.25 raise the
  earnings of REF1 from 0 to 35; a signup leaves them alone.\<close>

theorem earnings_never_decrease_witness:
  "reachable dbr1 \<and>
   nonneg_run dbr1 [(None, env_at [] 5, ReferralEarn ''REF1'' (JNum (Fin 100))),
                    (None, env_at [] 6, ReferralEarn ''REF1'' (JNum (Fin 40)))] \<and>
   map r_earnings (referrals dbr1) = [Fin 0] \<and>
   map r_earnings (referrals
     (run dbr1 [(None, env_at [] 5, ReferralEarn ''REF1'' (JNum (Fin 100))),
                (None, env_at [] 6, ReferralEarn ''REF1'' (JNum (Fin 40)))])) = [Fin 35] \<and>
   \<not> js_lt (r_earnings (referrals
     (run dbr1 [(None, env_at [] 5, ReferralEarn ''REF1'' (JNum (Fin 100))),
                (None, env_at [] 6, ReferralEarn ''REF1'' (JNum (Fin 40)))]) ! 0))
     (r_earnings (referrals dbr1 ! 0)) \<and>
   r_earnings (referrals (step dbr1 None (env_at [] 5) (ReferralSignup ''REF1'')) ! 0) =
     r_earnings (referrals dbr1 ! 0)"
proof -
  let ?reqs = "[(None, env_at [] 5, ReferralEarn ''REF1'' (JNum (Fin 100))),
                (None, env_at [] 6, ReferralEarn ''REF1'' (JNum (Fin 40)))]"
  have n: "nonneg_run dbr1 ?reqs"
    by (simp add: nonneg_earn_def dbr1_eq earn_eval)
  have i: "0 < length (referrals dbr1)" by (simp add: dbr1_eq)
  have e0: "map r_earnings (referrals dbr1) = [Fin 0]" by (simp add: dbr1_eq)
  have e2: "map r_earnings (referrals (run dbr1 ?reqs)) = [Fin 35]"
    by (simp add: dbr1_eq earn_eval)
  note T = earnings_never_decrease[of dbr1 ?reqs 0 "ReferralSignup ''REF1''" None "env_at [] 5"]
  from T reachable_dbr1 n i
  have a: "\<not> js_lt (r_earnings (referrals (run dbr1 ?reqs) ! 0)) (r_earnings (referrals dbr1 ! 0))"
    by blast
  from T i
  have b: "r_earnings (referrals (step dbr1 None (env_at [] 5) (ReferralSignup ''REF1'')) ! 0) =
     r_earnings (referrals dbr1 ! 0)"
    by blast
  from reachable_dbr1 n e0 e2 a b show ?thesis by blast
qed

subsection \<open>Subscribing\<close>

text \<open>
  C5. For an authenticated user and a creator found by name, subscribing
  (\<open>POST /api/subscribe/:creatorUsername\<close>) answers InvalidInput when the subscriber is the
  creator; for every other pair it appends a new subscription with status \<open>active\<close> and
  answers with it, whatever subscriptions exist already: the number of active subscriptions
  of the pair grows by one. In every state the server reaches, no subscription has its
  subscriber as its creator.
\<close>

theorem subscribe_behaviour:
  "(req_user st sess = Some u \<and> getUserByUsername st creatorUsername = Some c \<and>
    u_role c = ''creator'' \<longrightarrow>
      (u_id u = u_id c \<longrightarrow>
         api_subscribe st sess e creatorUsername plan =
           Inl (InvalidInput ''Cannot subscribe to yourself'')) \<and>
      (u_id u \<noteq> u_id c \<longrightarrow>
         (let sub = \<lparr>s_id = new_id e, s_subscriberId = u_id u, s_creatorId = u_id c,
                     s_plan = str_or plan ''monthly'', s_status = ''active'',
                     s_createdAt = now e\<rparr>;
              pair = (\<lambda>s. s_subscriberId s = u_id u \<and> s_creatorId s = u_id c \<and>
                           s_status s = ''active'')
          in api_subscribe st sess e creatorUsername plan =
               Inr (sub, st\<lparr>subscriptions := subscriptions st @ [sub]\<rparr>) \<and>
             length (filter pair (subscriptions st @ [sub])) =
               Suc (length (filter pair (subscriptions st)))))) \<and>
   (reachable st \<longrightarrow> (\<forall>s \<in> set (subscriptions st). s_subscriberId s \<noteq> s_creatorId s))"
  using reachable_subscriptions[of st]
  by (auto simp: api_subscribe_def subscribe_def Let_def)

text \<open>The scenario: bo, already subscribed to ana, subscribes again and has two active
  subscriptions; ana cannot subscribe to herself.\<close>

theorem subscribe_behaviour_witness:
  "req_user db5 (Some ''u2'') = Some bo \<and> req_user db5 (Some ''u1'') = Some ana \<and>
   getUserByUsername db5 ''ana'' = Some ana \<and> u_role ana = ''creator'' \<and>
   api_subscribe db5 (Some ''u1'') (env_at ''s2'' 6) ''ana'' None =
     Inl (InvalidInput ''Cannot subscribe to yourself'') \<and>
   api_subscribe db5 (Some ''u2'') (env_at ''s2'' 6) ''ana'' None =
     Inr (\<lparr>s_id = ''s2'', s_subscriberId = ''u2'', s_creatorId = ''u1'', s_plan = ''monthly'',
           s_status = ''active'', s_createdAt = 6\<rparr>,
          db5\<lparr>subscriptions :=
            [\<lparr>s_id = ''s1'', s_subscriberId = ''u2'', s_creatorId = ''u1'', s_plan = ''monthly'',
              s_status = ''active'', s_createdAt = 5\<rparr>,
             \<lparr>s_id = ''s2'', s_subscriberId = ''u2'', s_creatorId = ''u1'', s_plan = ''monthly'',
              s_status = ''active'', s_createdAt = 6\<rparr>]\<rparr>) \<and>
   reachable db5 \<and> list_all (\<lambda>s. s_subscriberId s \<noteq> s_creatorId s) (subscriptions db5)"
proof -
  have u2: "req_user db5 (Some ''u2'') = Some bo"
    by (simp add: db5_eq handler_eval record_eval)
  have u1: "req_user db5 (Some ''u1'') = Some ana"
    by (simp add: db5_eq handler_eval record_eval)
  have c: "getUserByUsername db5 ''ana'' = Some ana"
    by (simp add: db5_eq handler_eval record_eval)
  have r: "u_role ana = ''creator''" by (simp add: ana_def)
  have subs: "subscriptions db5 =
    [\<lparr>s_id = ''s1'', s_subscriberId = ''u2'', s_creatorId = ''u1'', s_plan = ''monthly'',
      s_status = ''active'', s_createdAt = 5\<rparr>]" by (simp add: db5_eq sub1_def)
  note T1 = subscribe_behaviour[of db5 "Some ''u1''" ana "''ana''" ana "env_at ''s2'' 6" None]
  note T2 = subscribe_behaviour[of db5 "Some ''u2''" bo "''ana''" ana "env_at ''s2'' 6" None]
  have a: "api_subscribe db5 (Some ''u1'') (env_at ''s2'' 6) ''ana'' None =
     Inl (InvalidInput ''Cannot subscribe to yourself'')"
    using T1 u1 c r by blast
  have ne: "u_id bo \<noteq> u_id ana" by (simp add: bo_def ana_def)
  have b: "api_subscribe db5 (Some ''u2'') (env_at ''s2'' 6) ''ana'' None =
     Inr (\<lparr>s_id = ''s2'', s_subscriberId = ''u2'', s_creatorId = ''u1'', s_plan = ''monthly'',
           s_status = ''active'', s_createdAt = 6\<rparr>,
          db5\<lparr>subscriptions :=
            [\<lparr>s_id = ''s1'', s_subscriberId = ''u2'', s_creatorId = ''u1'', s_plan = ''monthly'',
              s_status = ''active'', s_createdAt = 5\<rparr>,
             \<lparr>s_id = ''s2'', s_subscriberId = ''u2'', s_creatorId = ''u1'', s_plan = ''monthly'',
              s_status = ''active'', s_createdAt = 6\<rparr>]\<rparr>)"
    using T2 u2 c r ne
    by (simp add: Let_def subs bo_def ana_def env_at_def str_or_def)
  have d: "list_all (\<lambda>s. s_subscriberId s \<noteq> s_creatorId s) (subscriptions db5)"
    using T2 reachable_db5 by (simp add: list_all_iff)
  from u1 u2 c r a b d reachable_db5 show ?thesis by blast
qed

subsection \<open>Placing an order\<close>

text \<open>
  C6. For an authenticated buyer, placing an order (\<open>POST /api/order/:itemId\<close>) answers
  NotFound when no store item has the given id; InvalidInput when the buyer is the creator
  of the item found; and otherwise appends exactly one order, with status \<open>pending\<close>, the
  id of the item and the id of the buyer, and answers with it. In every state the server
  reaches, every order refers to an item that exists and whose creator is not the buyer.
\<close>

theorem placeOrder_behaviour:
  "(req_user st sess = Some u \<longrightarrow>
      ((\<forall>item \<in> set (storeItems st). i_id item \<noteq> itemId) \<longrightarrow>
          api_order_create st sess e itemId = Inl (NotFound ''Item not found'')) \<and>
      (\<forall>item. findStoreItemById st itemId = Some item \<longrightarrow>
          api_order_create st sess e itemId =
            (if u_id u = i_creatorId item then Inl (InvalidInput ''Cannot order your own item'')
             else Inr (\<lparr>o_id = new_id e, o_itemId = i_id item, o_buyerId = u_id u,
                         o_status = ''pending'', o_createdAt = now e\<rparr>,
                       st\<lparr>orders := orders st @
                         [\<lparr>o_id = new_id e, o_itemId = i_id item, o_buyerId = u_id u,
                           o_status = ''pending'', o_createdAt = now e\<rparr>]\<rparr>)))) \<and>
   (reachable st \<longrightarrow>
      (\<forall>ord \<in> set (orders st). \<exists>item. findStoreItemById st (o_itemId ord) = Some item \<and>
          i_creatorId item \<noteq> o_buyerId ord))"
proof -
  have nf: "findStoreItemById st itemId = None"
    if "\<forall>item \<in> set (storeItems st). i_id item \<noteq> itemId"
    using that by (auto simp: findStoreItemById_def find_None_iff)
  show ?thesis
    using reachable_orders[of st] nf
    by (auto simp: api_order_create_def createOrder_def Let_def)
qed

text \<open>The scenario: bo orders ana's sticker; ana cannot; an unknown item is not found.\<close>

theorem placeOrder_behaviour_witness:
  "req_user db6 (Some ''u2'') = Some bo \<and>
   api_order_create db6 (Some ''u2'') (env_at ''o1'' 7) ''nope'' = Inl (NotFound ''Item not found'') \<and>
   req_user db6 (Some ''u1'') = Some ana \<and>
   api_order_create db6 (Some ''u1'') (env_at ''o1'' 7) ''i1'' =
     Inl (InvalidInput ''Cannot order your own item'') \<and>
   api_order_create db6 (Some ''u2'') (env_at ''o1'' 7) ''i1'' =
     Inr (\<lparr>o_id = ''o1'', o_itemId = ''i1'', o_buyerId = ''u2'', o_status = ''pending'',
           o_createdAt = 7\<rparr>, db7) \<and>
   reachable db7 \<and>
   list_all (\<lambda>ord. \<exists>item. findStoreItemById db7 (o_itemId ord) = Some item \<and>
                  i_creatorId item \<noteq> o_buyerId ord) (orders db7)"
proof -
  let ?item = "\<lparr>i_id = ''i1'', i_creatorId = ''u1'', i_name = ''sticker'', i_description = [],
                i_price = Fin 5, i_createdAt = 6\<rparr>"
  have u: "req_user db6 (Some ''u2'') = Some bo"
    by (simp add: db6_eq handler_eval record_eval)
  have none: "\<forall>item \<in> set (storeItems db6). i_id item \<noteq> ''nope''"
    by (simp add: db6_eq record_eval)
  have item: "findStoreItemById db6 ''i1'' = Some ?item"
    by (simp add: db6_eq handler_eval record_eval)
  have db7: "db6\<lparr>orders := orders db6 @
      [\<lparr>o_id = ''o1'', o_itemId = ''i1'', o_buyerId = ''u2'', o_status = ''pending'',
        o_createdAt = 7\<rparr>]\<rparr> = db7"
    by (simp add: db6_eq db7_eq record_eval)
  note T = placeOrder_behaviour[of db6 "Some ''u2''" bo "''nope''" "env_at ''o1'' 7"]
  note T' = placeOrder_behaviour[of db6 "Some ''u2''" bo "''i1''" "env_at ''o1'' 7"]
  note R = placeOrder_behaviour[of db7 None bo "''i1''" "env_at ''o1'' 7"]
  note S = placeOrder_behaviour[of db6 "Some ''u1''" ana "''i1''" "env_at ''o1'' 7"]
  have ua: "req_user db6 (Some ''u1'') = Some ana"
    by (simp add: db6_eq handler_eval record_eval)
  have "api_order_create db6 (Some ''u1'') (env_at ''o1'' 7) ''i1'' =
      (if u_id ana = i_creatorId ?item then Inl (InvalidInput ''Cannot order your own item'')
       else Inr (\<lparr>o_id = new_id (env_at ''o1'' 7), o_itemId = i_id ?item, o_buyerId = u_id ana,
                   o_status = ''pending'', o_createdAt = now (env_at ''o1'' 7)\<rparr>,
                 db6\<lparr>orders := orders db6 @
                   [\<lparr>o_id = new_id (env_at ''o1'' 7), o_itemId = i_id ?item, o_buyerId = u_id ana,
                     o_status = ''pending'', o_createdAt = now (env_at ''o1'' 7)\<rparr>]\<rparr>))"
    using S ua item by blast
  then have s: "api_order_create db6 (Some ''u1'') (env_at ''o1'' 7) ''i1'' =
     Inl (InvalidInput ''Cannot order your own item'')"
    by (simp add: ana_def)
  have a: "api_order_create db6 (Some ''u2'') (env_at ''o1'' 7) ''nope'' = Inl (NotFound ''Item not found'')"
    using T u none by blast
  have "api_order_create db6 (Some ''u2'') (env_at ''o1'' 7) ''i1'' =
      (if u_id bo = i_creatorId ?item then Inl (InvalidInput ''Cannot order your own item'')
       else Inr (\<lparr>o_id = new_id (env_at ''o1'' 7), o_itemId = i_id ?item, o_buyerId = u_id bo,
                   o_status = ''pending'', o_createdAt = now (env_at ''o1'' 7)\<rparr>,
                 db6\<lparr>orders := orders db6 @
                   [\<lparr>o_id = new_id (env_at ''o1'' 7), o_itemId = i_id ?item, o_buyerId = u_id bo,
                     o_status = ''pending'', o_createdAt = now (env_at ''o1'' 7)\<rparr>]\<rparr>))"
    using T' u item by blast
  then have b: "api_order_create db6 (Some ''u2'') (env_at ''o1'' 7) ''i1'' =
     Inr (\<lparr>o_id = ''o1'', o_itemId = ''i1'', o_buyerId = ''u2'', o_status = ''pending'',
           o_createdAt = 7\<rparr>, db7)"
    using db7 by (simp add: bo_def env_at_def)
  have c: "list_all (\<lambda>ord. \<exists>item. findStoreItemById db7 (o_itemId ord) = Some item \<and>
                  i_creatorId item \<noteq> o_buyerId ord) (orders db7)"
    using R reachable_db7 by (simp add: list_all_iff)
  from u a b c ua s reachable_db7 show ?thesis by blast
qed

subsection \<open>Store items\<close>

text \<open>
  C7, as stated, fails: ana lists a sticker at the price \<open>-5\<close>, a number below zero, and the
  item is created.
\<close>

theorem createItem_negative_price_counterexample:
  "js_lt (Fin (- 5)) (Fin 0) \<and> is_double (Fin (- 5)) \<and>
   api_store_create db5 (Some ''u1'') (env_at ''i2'' 6) ''ana'' (Some ''sticker'') None
       (JNum (Fin (- 5))) =
     Inr (\<lparr>i_id = ''i2'', i_creatorId = ''u1'', i_name = ''sticker'', i_description = [],
           i_price = Fin (- 5), i_createdAt = 6\<rparr>,
          db5\<lparr>storeItems :=
            [\<lparr>i_id = ''i2'', i_creatorId = ''u1'', i_name = ''sticker'', i_description = [],
              i_price = Fin (- 5), i_createdAt = 6\<rparr>]\<rparr>)"
  using js_round_int[of "- 5"]
  by (simp add: is_double_def db5_eq handler_eval record_eval)

text \<open>
  C7, amended. For a creator adding to their own store (\<open>POST /api/store/:creatorUsername\<close>),
  creating an item answers InvalidInput exactly when the name is missing or empty or the
  price is not of type number; every price of type number, negative ones included, is
  accepted with a non-empty name: the item is appended with the price as given.
\<close>

theorem createItem_price_check:
  assumes "req_user st sess = Some u"
    and "getUserByUsername st creatorUsername = Some c"
    and "u_id c = u_id u"
  shows "(api_store_create st sess e creatorUsername name description price =
            Inl (InvalidInput ''Missing fields'')
          \<longleftrightarrow> \<not> str_truthy name \<or> js_typeof price \<noteq> ''number'') \<and>
         (\<forall>n nm. price = JNum n \<and> name = Some nm \<and> nm \<noteq> [] \<longrightarrow>
            (let item = \<lparr>i_id = new_id e, i_creatorId = u_id u, i_name = nm,
                         i_description = str_or description [], i_price = n,
                         i_createdAt = now e\<rparr>
             in api_store_create st sess e creatorUsername name description price =
                  Inr (item, st\<lparr>storeItems := storeItems st @ [item]\<rparr>)))"
  using assms
  by (cases price)
     (auto simp: api_store_create_def createStoreItem_def Let_def)

theorem createItem_price_check_witness:
  "req_user db5 (Some ''u1'') = Some ana \<and> getUserByUsername db5 ''ana'' = Some ana \<and>
   api_store_create db5 (Some ''u1'') (env_at ''i2'' 6) ''ana'' (Some ''sticker'') None
       (JStr ''5'') = Inl (InvalidInput ''Missing fields'') \<and>
   api_store_create db5 (Some ''u1'') (env_at ''i2'' 6) ''ana'' (Some ''sticker'') None
       (JNum (Fin (- 5))) =
     Inr (\<lparr>i_id = ''i2'', i_creatorId = ''u1'', i_name = ''sticker'', i_description = [],
           i_price = Fin (- 5), i_createdAt = 6\<rparr>,
          db5\<lparr>storeItems := storeItems db5 @
            [\<lparr>i_id = ''i2'', i_creatorId = ''u1'', i_name = ''sticker'', i_description = [],
              i_price = Fin (- 5), i_createdAt = 6\<rparr>]\<rparr>)"
proof -
  have u: "req_user db5 (Some ''u1'') = Some ana"
    by (simp add: db5_eq handler_eval record_eval)
  have c: "getUserByUsername db5 ''ana'' = Some ana"
    by (simp add: db5_eq handler_eval record_eval)
  note T1 = createItem_price_check[OF u c refl, of "env_at ''i2'' 6" "Some ''sticker''" None "JStr ''5''"]
  note T2 = createItem_price_check[OF u c refl, of "env_at ''i2'' 6" "Some ''sticker''" None
      "JNum (Fin (- 5))"]
  from T1 have a: "api_store_create db5 (Some ''u1'') (env_at ''i2'' 6) ''ana'' (Some ''sticker'') None
       (JStr ''5'') = Inl (InvalidInput ''Missing fields'')" by simp
  from T2 have b: "api_store_create db5 (Some ''u1'') (env_at ''i2'' 6) ''ana'' (Some ''sticker'') None
       (JNum (Fin (- 5))) =
     Inr (\<lparr>i_id = ''i2'', i_creatorId = ''u1'', i_name = ''sticker'', i_description = [],
           i_price = Fin (- 5), i_createdAt = 6\<rparr>,
          db5\<lparr>storeItems := storeItems db5 @
            [\<lparr>i_id = ''i2'', i_creatorId = ''u1'', i_name = ''sticker'', i_description = [],
              i_price = Fin (- 5), i_createdAt = 6\<rparr>]\<rparr>)"
    by (simp add: Let_def ana_def env_at_def str_or_def)
  from u c a b show ?thesis by blast
qed

subsection \<open>Profile updates\<close>

text \<open>What the merge does to each field of the profile: the three texts and the plans are
  replaced by a value of their type and kept otherwise; the social links are replaced by
  whatever has \<open>typeof\<close> \<open>object\<close>, which \<open>null\<close> and every array have too.\<close>

lemma typeof_string: "js_typeof v = ''string'' \<longleftrightarrow> (\<exists>s. v = JStr s)"
  by (cases v) simp_all

lemma typeof_object:
  "js_typeof v = ''object'' \<longleftrightarrow> v = JNull \<or> (\<exists>xs. v = JArr xs) \<or> (\<exists>links. v = JObj links)"
  by (cases v) simp_all

lemma isArray_iff: "isArray v \<longleftrightarrow> (\<exists>xs. v = JArr xs)"
  by (cases v) simp_all

lemma merge_profile_fields:
  "bio (merge_profile body pr) =
     (if js_typeof (field body ''bio'') = ''string'' then str_of (field body ''bio'') else bio pr)"
  "profilePicture (merge_profile body pr) =
     (if js_typeof (field body ''profilePicture'') = ''string''
      then str_of (field body ''profilePicture'') else profilePicture pr)"
  "banner (merge_profile body pr) =
     (if js_typeof (field body ''banner'') = ''string'' then str_of (field body ''banner'')
      else banner pr)"
  "socialLinks (merge_profile body pr) =
     (if js_typeof (field body ''socialLinks'') = ''object'' then field body ''socialLinks''
      else socialLinks pr)"
  "subscriptionPlans (merge_profile body pr) =
     (if isArray (field body ''subscriptionPlans'') then arr_of (field body ''subscriptionPlans'')
      else subscriptionPlans pr)"
  by (simp_all add: merge_profile_def Let_def)

lemma api_profile_update_answers:
  "req_user st sess = Some u \<Longrightarrow> \<exists>pr st'. api_profile_update st sess body = Inr (pr, st')"
  by (simp add: api_profile_update_def)

text \<open>
  C8 fails on the code for the social links: bo sends \<open>{"socialLinks": null}\<close>, a value that
  is not a mapping, and the profile's social links, until then the empty mapping, become
  \<open>null\<close>; an array is merged in the same way.
\<close>

theorem updateProfile_socialLinks_null:
  "users db2 = [ana, bo] \<and> socialLinks (u_profile bo) = JObj [] \<and>
   api_profile_update db2 (Some ''u2'') [(''socialLinks'', JNull)] =
     Inr (\<lparr>bio = [], profilePicture = [], banner = [], socialLinks = JNull,
           subscriptionPlans = []\<rparr>,
          db2\<lparr>users := [ana, bo\<lparr>u_profile := \<lparr>bio = [], profilePicture = [], banner = [],
                 socialLinks = JNull, subscriptionPlans = []\<rparr>\<rparr>]\<rparr>) \<and>
   api_profile_update db2 (Some ''u2'') [(''socialLinks'', JArr [JStr ''x''])] =
     Inr (\<lparr>bio = [], profilePicture = [], banner = [], socialLinks = JArr [JStr ''x''],
           subscriptionPlans = []\<rparr>,
          db2\<lparr>users := [ana, bo\<lparr>u_profile := \<lparr>bio = [], profilePicture = [], banner = [],
                 socialLinks = JArr [JStr ''x''], subscriptionPlans = []\<rparr>\<rparr>]\<rparr>)"
  by (simp add: db2_eq handler_eval merge_profile_def field_def record_eval)

subsection \<open>Search\<close>








lemma lower_includes_Inr: "lower_includes v q = Inr b \<Longrightarrow> \<exists>s. v = JStr s"
  by (cases v) (simp_all add: lower_includes_def)














subsection \<open>Messages to oneself\<close>

lemma set_add_set: "set (set_add ps x) = insert x (set ps)"
  by (auto simp: set_add_def)

lemma set_add_distinct: "distinct ps \<Longrightarrow> distinct (set_add ps x)"
  by (auto simp: set_add_def)

lemma partners_fold:
  "set (foldl (\<lambda>partners msg.
        (let partners1 = (if m_senderId msg = uid then set_add partners (m_recipientId msg)
                          else partners)
         in if m_recipientId msg = uid then set_add partners1 (m_senderId msg) else partners1))
       acc ms) =
   set acc \<union> {m_recipientId m | m. m \<in> set ms \<and> m_senderId m = uid}
           \<union> {m_senderId m | m. m \<in> set ms \<and> m_recipientId m = uid}"
  by (induction ms arbitrary: acc) (auto simp: Let_def set_add_set)

lemma partners_fold_distinct:
  "distinct acc \<Longrightarrow>
   distinct (foldl (\<lambda>partners msg.
        (let partners1 = (if m_senderId msg = uid then set_add partners (m_recipientId msg)
                          else partners)
         in if m_recipientId msg = uid then set_add partners1 (m_senderId msg) else partners1))
       acc ms)"
  by (induction ms arbitrary: acc) (auto simp: Let_def set_add_distinct)

lemma conversationPartners_set:
  "set (conversationPartners st uid) =
     {m_recipientId m | m. m \<in> set (messages st) \<and> m_senderId m = uid}
   \<union> {m_senderId m | m. m \<in> set (messages st) \<and> m_recipientId m = uid}"
  unfolding conversationPartners_def partners_fold by simp

lemma conversationPartners_distinct: "distinct (conversationPartners st uid)"
  unfolding conversationPartners_def by (rule partners_fold_distinct) simp

text \<open>
  C10. A message to oneself is accepted: when the recipient found by name has the sender's
  own id, \<open>POST /api/message/send\<close> appends the message like any other and answers with
  it. Afterwards the sender's id is one of the distinct conversation partners of the
  sender, and \<open>listConversations\<close> returns the sender's own record among them.
\<close>

theorem self_message_accepted:
  assumes "req_user st sess = Some u"
    and "getUserByUsername st recipientUsername = Some r"
    and "u_id r = u_id u"
    and "recipientUsername \<noteq> []" and "content \<noteq> []"
  shows "(let msg = \<lparr>m_id = new_id e, m_senderId = u_id u, m_recipientId = u_id u,
                     m_content = content, m_createdAt = now e\<rparr>;
              st' = st\<lparr>messages := messages st @ [msg]\<rparr>
          in api_message_send st sess e (Some recipientUsername) (Some content) = Inr (msg, st') \<and>
             u_id u \<in> set (conversationPartners st' (u_id u)) \<and>
             distinct (conversationPartners st' (u_id u)) \<and>
             Some u \<in> set (listConversations st' (u_id u)) \<and>
             api_message_conversations st' sess = Inr (listConversations st' (u_id u)))"
proof -
  define msg where "msg = \<lparr>m_id = new_id e, m_senderId = u_id u, m_recipientId = u_id u,
                     m_content = content, m_createdAt = now e\<rparr>"
  define st' where "st' = st\<lparr>messages := messages st @ [msg]\<rparr>"
  have send: "api_message_send st sess e (Some recipientUsername) (Some content) = Inr (msg, st')"
    using assms by (simp add: api_message_send_def sendMessage_def Let_def msg_def st'_def)
  have "msg \<in> set (messages st')" "m_senderId msg = u_id u" "m_recipientId msg = u_id u"
    by (simp_all add: st'_def msg_def)
  then have "u_id u \<in> {m_recipientId m | m. m \<in> set (messages st') \<and> m_senderId m = u_id u}"
    by (intro CollectI exI[of _ msg]) simp
  then have mem: "u_id u \<in> set (conversationPartners st' (u_id u))"
    unfolding conversationPartners_set by simp
  have same: "getUserById st' x = getUserById st x" for x
    by (simp add: getUserById_def st'_def)
  have user: "req_user st' sess = Some u"
    using assms(1) by (auto simp: req_user_def same split: option.splits)
  from req_user_Some[OF assms(1)] assms(1) have get: "getUserById st' (u_id u) = Some u"
    by (auto simp: req_user_def same split: option.splits if_splits)
  have "Some u \<in> set (listConversations st' (u_id u))"
    unfolding listConversations_def using mem get by force
  moreover have "api_message_conversations st' sess = Inr (listConversations st' (u_id u))"
    using user by (simp add: api_message_conversations_def)
  ultimately show ?thesis
    using send mem conversationPartners_distinct[of st' "u_id u"]
    unfolding msg_def[symmetric] Let_def st'_def[symmetric] by simp
qed

text \<open>The scenario: ana writes to herself and finds herself among her conversations.\<close>

theorem self_message_accepted_witness:
  "req_user db7 (Some ''u1'') = Some ana \<and> getUserByUsername db7 ''ana'' = Some ana \<and>
   api_message_send db7 (Some ''u1'') (env_at ''m1'' 8) (Some ''ana'') (Some ''note to self'') =
     Inr (\<lparr>m_id = ''m1'', m_senderId = ''u1'', m_recipientId = ''u1'',
           m_content = ''note to self'', m_createdAt = 8\<rparr>, db8) \<and>
   conversationPartners db8 ''u1'' = [''u1''] \<and>
   listConversations db8 ''u1'' = [Some ana]"
proof -
  have u: "req_user db7 (Some ''u1'') = Some ana"
    by (simp add: db7_eq handler_eval record_eval)
  have r: "getUserByUsername db7 ''ana'' = Some ana"
    by (simp add: db7_eq handler_eval record_eval)
  have db8: "db7\<lparr>messages := messages db7 @ [\<lparr>m_id = ''m1'', m_senderId = ''u1'',
     m_recipientId = ''u1'', m_content = ''note to self'', m_createdAt = 8\<rparr>]\<rparr> = db8"
    by (simp add: db7_eq db8_eq msg1_def)
  have p: "conversationPartners db8 ''u1'' = [''u1'']"
    by (simp add: db8_eq conversationPartners_def set_add_def msg1_def)
  have l: "listConversations db8 ''u1'' = [Some ana]"
    unfolding listConversations_def p by (simp add: getUserById_def db8_eq record_eval)
  from self_message_accepted[OF u r, of "''note to self''" "env_at ''m1'' 8"]
  have "api_message_send db7 (Some ''u1'') (env_at ''m1'' 8) (Some ''ana'') (Some ''note to self'') =
     Inr (\<lparr>m_id = ''m1'', m_senderId = ''u1'', m_recipientId = ''u1'',
           m_content = ''note to self'', m_createdAt = 8\<rparr>, db8)"
    using db8 by (simp add: Let_def ana_def env_at_def)
  with u r p l show ?thesis by blast
qed

end
